theory Spec2Isabelle
  imports Complex_Main
begin

section \<open>JavaScript values used by the two components\<close>

subsection \<open>Numbers\<close>

text \<open>
  A JavaScript Number is an IEEE 754 binary64 value. \<open>Fin x\<close> is the finite double whose
  value is the real \<open>x\<close>; the two zeros are identified (they print alike, and the code
  never divides by a zero: a quotient by zero is signed here as for the positive zero).
  Every arithmetic operation computes the exact result and rounds it to the nearest
  double, ties to even: \<open>to_double\<close>.
\<close>

datatype number = Fin real | PosInf | NegInf | NaN

fun bit_length :: "nat \<Rightarrow> nat" where
  "bit_length n = (if n = 0 then 0 else Suc (bit_length (n div 2)))"

declare bit_length.simps [simp del]

definition floor_log2 :: "real \<Rightarrow> int" where
  \<comment> \<open>for \<open>0 < q\<close>: the \<open>e\<close> with \<open>2 ^ e \<le> q < 2 ^ (e + 1)\<close>\<close>
  "floor_log2 q =
     (if 1 \<le> q then int (bit_length (nat \<lfloor>q\<rfloor>)) - 1
      else - int (bit_length (nat (\<lceil>1 / q\<rceil> - 1))))"

definition pow2 :: "int \<Rightarrow> real" where
  "pow2 e = (if 0 \<le> e then 2 ^ nat e else 1 / 2 ^ nat (- e))"

definition round_ties_even :: "real \<Rightarrow> int" where
  "round_ties_even x =
     (let f = \<lfloor>x\<rfloor>; d = x - of_int f
      in if d < 1 / 2 then f else if 1 / 2 < d then f + 1 else if even f then f else f + 1)"

definition to_double :: "real \<Rightarrow> number" where
  \<comment> \<open>53-bit significand, exponents from \<open>- 1022\<close> (subnormals below) to \<open>1023\<close>\<close>
  "to_double q =
     (if q = 0 then Fin 0
      else
        let e = max (floor_log2 \<bar>q\<bar>) (- 1022);
            ulp = pow2 (e - 52);
            r = of_int (round_ties_even (\<bar>q\<bar> / ulp)) * ulp
        in if pow2 1024 \<le> r then (if 0 < q then PosInf else NegInf)
           else Fin (sgn q * r))"

definition ulp_of :: "real \<Rightarrow> real" where
  \<comment> \<open>the spacing of the doubles around \<open>q\<close>\<close>
  "ulp_of q = pow2 (max (floor_log2 \<bar>q\<bar>) (- 1022) - 52)"

definition sign_inf :: "bool \<Rightarrow> number" where
  "sign_inf positive = (if positive then PosInf else NegInf)"

fun fsub :: "number \<Rightarrow> number \<Rightarrow> number" where
  "fsub (Fin a) (Fin b) = to_double (a - b)"
| "fsub (Fin a) PosInf = NegInf"
| "fsub (Fin a) NegInf = PosInf"
| "fsub PosInf (Fin b) = PosInf"
| "fsub PosInf NegInf = PosInf"
| "fsub NegInf (Fin b) = NegInf"
| "fsub NegInf PosInf = NegInf"
| "fsub PosInf PosInf = NaN"
| "fsub NegInf NegInf = NaN"
| "fsub NaN y = NaN"
| "fsub (Fin a) NaN = NaN"
| "fsub PosInf NaN = NaN"
| "fsub NegInf NaN = NaN"

fun fdiv :: "number \<Rightarrow> number \<Rightarrow> number" where
  "fdiv (Fin a) (Fin b) =
     (if b = 0 then (if a = 0 then NaN else sign_inf (0 < a)) else to_double (a / b))"
| "fdiv (Fin a) PosInf = Fin 0"
| "fdiv (Fin a) NegInf = Fin 0"
| "fdiv PosInf (Fin b) = sign_inf (0 \<le> b)"
| "fdiv NegInf (Fin b) = sign_inf (b < 0)"
| "fdiv PosInf PosInf = NaN"
| "fdiv PosInf NegInf = NaN"
| "fdiv NegInf PosInf = NaN"
| "fdiv NegInf NegInf = NaN"
| "fdiv NaN y = NaN"
| "fdiv (Fin a) NaN = NaN"
| "fdiv PosInf NaN = NaN"
| "fdiv NegInf NaN = NaN"

fun fmul :: "number \<Rightarrow> number \<Rightarrow> number" where
  "fmul (Fin a) (Fin b) = to_double (a * b)"
| "fmul (Fin a) PosInf = (if a = 0 then NaN else sign_inf (0 < a))"
| "fmul (Fin a) NegInf = (if a = 0 then NaN else sign_inf (a < 0))"
| "fmul PosInf (Fin b) = (if b = 0 then NaN else sign_inf (0 < b))"
| "fmul NegInf (Fin b) = (if b = 0 then NaN else sign_inf (b < 0))"
| "fmul PosInf PosInf = PosInf"
| "fmul NegInf NegInf = PosInf"
| "fmul PosInf NegInf = NegInf"
| "fmul NegInf PosInf = NegInf"
| "fmul NaN y = NaN"
| "fmul (Fin a) NaN = NaN"
| "fmul PosInf NaN = NaN"
| "fmul NegInf NaN = NaN"

fun Math_round :: "number \<Rightarrow> number" where
  \<comment> \<open>nearest integer, a tie going towards \<open>+\<infinity>\<close>\<close>
  "Math_round (Fin q) = Fin (of_int \<lfloor>q + 1 / 2\<rfloor>)"
| "Math_round PosInf = PosInf"
| "Math_round NegInf = NegInf"
| "Math_round NaN = NaN"

fun greater_than_zero :: "number \<Rightarrow> bool" where
  \<comment> \<open>the comparison \<open>x > 0\<close>\<close>
  "greater_than_zero (Fin a) = (0 < a)"
| "greater_than_zero PosInf = True"
| "greater_than_zero NegInf = False"
| "greater_than_zero NaN = False"

fun strictly_equals_zero :: "number \<Rightarrow> bool" where
  \<comment> \<open>the comparison \<open>x === 0\<close>\<close>
  "strictly_equals_zero (Fin a) = (a = 0)"
| "strictly_equals_zero PosInf = False"
| "strictly_equals_zero NegInf = False"
| "strictly_equals_zero NaN = False"

subsection \<open>Arrays\<close>

text \<open>
  \<open>Array.prototype.indexOf\<close>: the first position holding the value, \<open>- 1\<close> when there
  is none.
\<close>

fun indexOf_from :: "'a list \<Rightarrow> 'a \<Rightarrow> int \<Rightarrow> int" where
  "indexOf_from [] x i = - 1"
| "indexOf_from (y # ys) x i = (if y = x then i else indexOf_from ys x (i + 1))"

definition indexOf :: "'a list \<Rightarrow> 'a \<Rightarrow> int" where
  "indexOf xs x = indexOf_from xs x 0"

text \<open>
  \<open>Array.prototype.sort\<close> with a comparator is stable (ECMAScript 2019): an element moves
  behind another one only when the comparator returns a positive number for the pair.
  For a consistent comparator this fixes the result, computed here by insertion.
\<close>

fun insert_stable :: "('a \<Rightarrow> 'a \<Rightarrow> int) \<Rightarrow> 'a \<Rightarrow> 'a list \<Rightarrow> 'a list" where
  "insert_stable cmp x [] = [x]"
| "insert_stable cmp x (y # ys) =
     (if 0 < cmp x y then y # insert_stable cmp x ys else x # y # ys)"

fun Array_sort :: "('a \<Rightarrow> 'a \<Rightarrow> int) \<Rightarrow> 'a list \<Rightarrow> 'a list" where
  "Array_sort cmp [] = []"
| "Array_sort cmp (x # xs) = insert_stable cmp x (Array_sort cmp xs)"

text \<open>
  \<open>Array.prototype.reduce\<close> with an initial value, for a callback that may throw.
\<close>

datatype js_error = TypeError

fun reduce :: "('b \<Rightarrow> 'a \<Rightarrow> js_error + 'b) \<Rightarrow> 'a list \<Rightarrow> 'b \<Rightarrow> js_error + 'b" where
  "reduce f [] acc = Inr acc"
| "reduce f (x # xs) acc =
     (case f acc x of Inl e \<Rightarrow> Inl e | Inr acc' \<Rightarrow> reduce f xs acc')"

fun traverse :: "('a \<Rightarrow> js_error + 'b) \<Rightarrow> 'a list \<Rightarrow> js_error + 'b list" where
  "traverse f [] = Inr []"
| "traverse f (x # xs) =
     (case f x of
        Inl e \<Rightarrow> Inl e
      | Inr y \<Rightarrow> (case traverse f xs of Inl e \<Rightarrow> Inl e | Inr ys \<Rightarrow> Inr (y # ys)))"

subsection \<open>Plain objects\<close>

text \<open>
  An object literal \<open>{}\<close> holds its own properties in the order of their creation and
  inherits those of \<open>Object.prototype\<close>. \<open>Object.keys\<close> lists the own keys that are array
  indices first, in ascending numeric order, then the other keys in creation order.
\<close>

type_synonym 'v object = "(string \<times> 'v) list"

definition Object_prototype_keys :: "string list" where
  "Object_prototype_keys =
     [''constructor'', ''hasOwnProperty'', ''isPrototypeOf'', ''propertyIsEnumerable'',
      ''toLocaleString'', ''toString'', ''valueOf'', ''__proto__'',
      ''__defineGetter__'', ''__defineSetter__'', ''__lookupGetter__'', ''__lookupSetter__'']"

datatype 'v property = Own 'v | Inherited | Undefined

definition get_property :: "'v object \<Rightarrow> string \<Rightarrow> 'v property" where
  "get_property obj k =
     (case map_of obj k of
        Some v \<Rightarrow> Own v
      | None \<Rightarrow> if k \<in> set Object_prototype_keys then Inherited else Undefined)"

fun set_own :: "'v object \<Rightarrow> string \<Rightarrow> 'v \<Rightarrow> 'v object" where
  "set_own [] k v = [(k, v)]"
| "set_own ((k', v') # obj) k v =
     (if k' = k then (k, v) # obj else (k', v') # set_own obj k v)"

definition is_digit :: "char \<Rightarrow> bool" where
  "is_digit c = (48 \<le> (of_char c :: int) \<and> (of_char c :: int) \<le> 57)"

definition decimal_value :: "string \<Rightarrow> int" where
  "decimal_value s = foldl (\<lambda>n c. 10 * n + (of_char c - 48)) 0 s"

definition array_index :: "string \<Rightarrow> int option" where
  \<comment> \<open>a canonical numeric string below \<open>2 ^ 32 - 1\<close>\<close>
  "array_index s =
     (if s \<noteq> [] \<and> list_all is_digit s \<and> \<not> (1 < length s \<and> hd s = CHR ''0'')
         \<and> decimal_value s < 4294967295
      then Some (decimal_value s) else None)"

definition Object_keys :: "'v object \<Rightarrow> string list" where
  "Object_keys obj =
     (let ks = map fst obj
      in sort_key (\<lambda>k. case array_index k of Some n \<Rightarrow> n | None \<Rightarrow> 0)
           (filter (\<lambda>k. array_index k \<noteq> None) ks)
         @ filter (\<lambda>k. array_index k = None) ks)"

section \<open>The public category listing (CategoriesPage)\<close>

text \<open>
  A row of the \<open>categories\<close> table as the page reads it: the numeric columns arrive as
  JavaScript Numbers.
\<close>

record category =
  c_id :: string
  c_name :: string
  actual_fee :: number
  offer_fee :: number
  is_active :: bool
  is_highlighted :: bool

definition categoryOrder :: "string list" where
  "categoryOrder =
     [''Pennyekart Free Registration'',
      ''Pennyekart Paid Registration'',
      ''Farmelife'',
      ''Organelife'',
      ''Foodelife'',
      ''Entrelife'',
      ''Job Card'']"

definition compareFn :: "category \<Rightarrow> category \<Rightarrow> int" where
  \<comment> \<open>the comparator handed to \<open>sort\<close>\<close>
  "compareFn a b =
     (let aIndex = indexOf categoryOrder (c_name a);
          bIndex = indexOf categoryOrder (c_name b)
      in (if aIndex = - 1 then 999 else aIndex) - (if bIndex = - 1 then 999 else bIndex))"

text \<open>
  The query function, given the backend's answer \<open>{ data, error }\<close>: it throws the error
  (\<open>Inl\<close>), and otherwise returns \<open>data?.sort(...) || []\<close>.
\<close>

definition queryFn :: "'e option \<Rightarrow> category list option \<Rightarrow> 'e + category list" where
  "queryFn error data =
     (case error of
        Some e \<Rightarrow> Inl e
      | None \<Rightarrow> (case data of None \<Rightarrow> Inr [] | Some d \<Rightarrow> Inr (Array_sort compareFn d)))"

text \<open>What one card shows of its category.\<close>

record category_card =
  card_key :: string
  card_title :: string
  free_badge :: bool
  regular_fee :: number
  offer_price :: number
  you_save :: number
  discount_off :: number
  register_link :: string

definition renderCard :: "category \<Rightarrow> category_card" where
  "renderCard category =
     \<lparr> card_key = c_id category,
       card_title = c_name category,
       free_badge = strictly_equals_zero (offer_fee category),
       regular_fee = actual_fee category,
       offer_price = offer_fee category,
       you_save = fsub (actual_fee category) (offer_fee category),
       discount_off =
         (if greater_than_zero (actual_fee category)
          then Math_round
                 (fmul (fdiv (fsub (actual_fee category) (offer_fee category))
                             (actual_fee category))
                       (Fin 100))
          else Fin 0),
       register_link = ''/register/'' @ c_id category \<rparr>"


datatype page = Spinner | ErrorMessage | Listing "category_card list" bool

definition CategoriesPage :: "bool \<Rightarrow> bool \<Rightarrow> category list option \<Rightarrow> page" where
  \<comment> \<open>\<open>Listing cards e\<close>: the cards, and whether the "No categories available" text shows\<close>
  "CategoriesPage isLoading error categories =
     (if isLoading then Spinner
      else if error then ErrorMessage
      else Listing
             (case categories of None \<Rightarrow> [] | Some cs \<Rightarrow> map renderCard cs)
             (case categories of None \<Rightarrow> True | Some cs \<Rightarrow> length cs = 0))"

text \<open>Auxiliary notions for the display order.\<close>

definition rank :: "category \<Rightarrow> int" where
  "rank c = (let i = indexOf categoryOrder (c_name c) in if i = - 1 then 999 else i)"

definition buckets :: "('a \<Rightarrow> int) \<Rightarrow> int list \<Rightarrow> 'a list \<Rightarrow> 'a list" where
  "buckets g rs xs = concat (map (\<lambda>r. filter (\<lambda>y. g y = r) xs) rs)"

section \<open>The admin panchayath view (PanchayathsManagement)\<close>

subsection \<open>State\<close>

record panchayath =
  p_id :: string
  p_name :: string
  district :: string
  created_at :: string
  updated_at :: string

record form_data =
  f_name :: string
  f_district :: string

record permissions =
  canWrite :: bool
  canDelete :: bool

text \<open>
  A request to the backend's query surface: the table, the operation with its row-shaped
  payload (column and value, in the order of the object literal), and the \<open>eq\<close> filters.
\<close>

type_synonym payload = "(string \<times> string) list"

datatype operation = Insert "payload list" | Update payload | Delete

datatype request = Request (req_table: string) (req_operation: operation)
  (req_eq: "(string \<times> string) list")

record toast =
  title :: string
  description :: string
  destructive :: bool

text \<open>
  The query cache: an entry per query key, holding the last fetched data and the mark
  that \<open>invalidateQueries\<close> sets. A key matches a filter key that is a prefix of it.
\<close>

record query_entry =
  q_data :: "panchayath list option"
  isInvalidated :: bool

type_synonym query_cache = "(string list \<times> query_entry) list"

record subscription =
  channel_name :: string
  kind :: string
  event :: string
  schema :: string
  table_name :: string

record client =
  isDialogOpen :: bool
  editingPanchayath :: "panchayath option"
  formData :: form_data
  queryCache :: query_cache
  toasts :: "toast list"
  channels :: "subscription list"

subsection \<open>The list query and its cache entry\<close>

definition admin_queryKey :: "string list" where
  "admin_queryKey = [''admin-panchayaths'']"

definition admin_queryFn ::
  "'e option \<Rightarrow> panchayath list option \<Rightarrow> 'e + panchayath list option" where
  \<comment> \<open>\<open>if (error) throw error; return data;\<close> (the backend orders by district, then name)\<close>
  "admin_queryFn error data = (case error of Some e \<Rightarrow> Inl e | None \<Rightarrow> Inr data)"

definition key_matches :: "string list \<Rightarrow> string list \<Rightarrow> bool" where
  "key_matches filter_key k = (take (length filter_key) k = filter_key)"

definition invalidateQueries :: "string list \<Rightarrow> query_cache \<Rightarrow> query_cache" where
  "invalidateQueries filter_key cache =
     map (\<lambda>(k, entry). if key_matches filter_key k
                         then (k, entry\<lparr>isInvalidated := True\<rparr>) else (k, entry)) cache"

definition invalidate_list :: "client \<Rightarrow> client" where
  \<comment> \<open>\<open>queryClient.invalidateQueries({ queryKey: ['admin-panchayaths'] })\<close>\<close>
  "invalidate_list st = st\<lparr>queryCache := invalidateQueries admin_queryKey (queryCache st)\<rparr>"

definition panchayaths :: "client \<Rightarrow> panchayath list option" where
  \<comment> \<open>the \<open>data\<close> that \<open>useQuery\<close> hands to the component\<close>
  "panchayaths st =
     (case map_of (queryCache st) admin_queryKey of None \<Rightarrow> None | Some entry \<Rightarrow> q_data entry)"

fun store_entry :: "query_cache \<Rightarrow> string list \<Rightarrow> query_entry \<Rightarrow> query_cache" where
  "store_entry [] k entry = [(k, entry)]"
| "store_entry ((k', entry') # cache) k entry =
     (if k' = k then (k, entry) # cache else (k', entry') # store_entry cache k entry)"

definition refetch :: "'e option \<Rightarrow> panchayath list option \<Rightarrow> client \<Rightarrow> client" where
  \<comment> \<open>the re-run of the query function that an invalidation triggers: a result replaces
      the entry's data whole; a thrown error leaves the entry as it is\<close>
  "refetch error data st =
     (case admin_queryFn error data of
        Inl e \<Rightarrow> st
      | Inr rows \<Rightarrow>
          st\<lparr>queryCache :=
               store_entry (queryCache st) admin_queryKey
                 \<lparr>q_data = rows, isInvalidated = False\<rparr>\<rparr>)"

definition initial_client :: client where
  \<comment> \<open>the component at its first render: the \<open>useState\<close> defaults, no data fetched yet\<close>
  "initial_client =
     \<lparr> isDialogOpen = False,
       editingPanchayath = None,
       formData = \<lparr> f_name = [], f_district = [] \<rparr>,
       queryCache = [(admin_queryKey, \<lparr>q_data = None, isInvalidated = False\<rparr>)],
       toasts = [],
       channels = [] \<rparr>"

subsection \<open>The realtime subscription\<close>

record change =
  change_schema :: string
  change_table :: string
  change_type :: string
  change_row :: payload

definition panchayaths_changes :: subscription where
  "panchayaths_changes =
     \<lparr> channel_name = ''panchayaths-changes'',
       kind = ''postgres_changes'',
       event = ''*'',
       schema = ''public'',
       table_name = ''panchayaths'' \<rparr>"

definition on_change :: "change \<Rightarrow> client \<Rightarrow> client" where
  \<comment> \<open>the callback \<open>() => { queryClient.invalidateQueries(...) }\<close>\<close>
  "on_change notification st = invalidate_list st"

definition effect_mount :: "client \<Rightarrow> client" where
  "effect_mount st = st\<lparr>channels := channels st @ [panchayaths_changes]\<rparr>"

definition effect_cleanup :: "client \<Rightarrow> client" where
  \<comment> \<open>\<open>supabase.removeChannel(channel)\<close>\<close>
  "effect_cleanup st = st\<lparr>channels := remove1 panchayaths_changes (channels st)\<rparr>"

definition listens :: "subscription \<Rightarrow> change \<Rightarrow> bool" where
  \<comment> \<open>which notifications the realtime client hands to a subscription's callback\<close>
  "listens sub c =
     (kind sub = ''postgres_changes''
      \<and> (event sub = ''*'' \<or> event sub = change_type c)
      \<and> schema sub = change_schema c
      \<and> table_name sub = change_table c)"

definition notify :: "change \<Rightarrow> client \<Rightarrow> client" where
  "notify c st = fold (\<lambda>sub s. if listens sub c then on_change c s else s) (channels st) st"

subsection \<open>Mutations\<close>

definition empty_form :: form_data where
  "empty_form = \<lparr> f_name = [], f_district = [] \<rparr>"

definition spread :: "form_data \<Rightarrow> payload" where
  \<comment> \<open>the own properties of the form object: it only ever has these two\<close>
  "spread d = [(''name'', f_name d), (''district'', f_district d)]"

text \<open>
  \<open>savePanchayathMutation\<close>. \<open>now\<close> is \<open>new Date().toISOString()\<close>; \<open>respond\<close> is the
  backend's answer to a request: \<open>None\<close> for success, an error otherwise. \<open>mutate\<close> calls
  the mutation function once (a mutation is not retried unless the query client is told
  so) and then exactly one of the two callbacks.
\<close>

definition save_mutationFn :: "string \<Rightarrow> panchayath option \<Rightarrow> form_data \<Rightarrow> request" where
  "save_mutationFn now editing panchayathData =
     (case editing of
        Some p \<Rightarrow>
          Request ''panchayaths''
            (Update (spread panchayathData @ [(''updated_at'', now)]))
            [(''id'', p_id p)]
      | None \<Rightarrow> Request ''panchayaths'' (Insert [spread panchayathData]) [])"

definition save_onSuccess :: "client \<Rightarrow> client" where
  "save_onSuccess st =
     (invalidate_list st)
       \<lparr> isDialogOpen := False,
         editingPanchayath := None,
         formData := empty_form,
         toasts := toasts st @
           [\<lparr> title = (if editingPanchayath st \<noteq> None
                         then ''Panchayath Updated'' else ''Panchayath Created''),
              description = ''Panchayath has been '' @
                        (if editingPanchayath st \<noteq> None then ''updated'' else ''created'')
                        @ '' successfully.'',
              destructive = False \<rparr>] \<rparr>"

definition save_onError :: "client \<Rightarrow> client" where
  "save_onError st =
     st\<lparr>toasts := toasts st @
          [\<lparr> title = ''Operation Failed'',
             description = ''Failed to save panchayath. Please try again.'',
             destructive = True \<rparr>]\<rparr>"

definition save_mutate ::
  "string \<Rightarrow> (request \<Rightarrow> 'e option) \<Rightarrow> client \<Rightarrow> form_data \<Rightarrow> request list \<times> client" where
  "save_mutate now respond st variables =
     (let req = save_mutationFn now (editingPanchayath st) variables
      in ([req], case respond req of None \<Rightarrow> save_onSuccess st | Some e \<Rightarrow> save_onError st))"

definition delete_mutationFn :: "string \<Rightarrow> request" where
  "delete_mutationFn i = Request ''panchayaths'' Delete [(''id'', i)]"

definition delete_onSuccess :: "client \<Rightarrow> client" where
  "delete_onSuccess st =
     (invalidate_list st)
       \<lparr> toasts := toasts st @
           [\<lparr> title = ''Panchayath Deleted'',
              description = ''Panchayath has been deleted successfully.'',
              destructive = False \<rparr>] \<rparr>"

definition delete_onError :: "client \<Rightarrow> client" where
  "delete_onError st =
     st\<lparr>toasts := toasts st @
          [\<lparr> title = ''Delete Failed'',
             description =
               ''Failed to delete panchayath. It may be in use by registrations.'',
             destructive = True \<rparr>]\<rparr>"

definition delete_mutate ::
  "(request \<Rightarrow> 'e option) \<Rightarrow> client \<Rightarrow> string \<Rightarrow> request list \<times> client" where
  "delete_mutate respond st i =
     (let req = delete_mutationFn i
      in ([req], case respond req of None \<Rightarrow> delete_onSuccess st | Some e \<Rightarrow> delete_onError st))"

subsection \<open>Event handlers\<close>

text \<open>
  Each handler returns the requests it sent to the backend and the next client state.
  \<open>confirm\<close> is \<open>window.confirm\<close>: the user's answer to the question it is asked.
\<close>

definition handleEdit :: "panchayath \<Rightarrow> client \<Rightarrow> client" where
  "handleEdit p st =
     st\<lparr> editingPanchayath := Some p,
         formData := \<lparr> f_name = p_name p, f_district = district p \<rparr>,
         isDialogOpen := True \<rparr>"

definition handleDelete ::
  "permissions \<Rightarrow> (string \<Rightarrow> bool) \<Rightarrow> (request \<Rightarrow> 'e option) \<Rightarrow> string \<Rightarrow> client
     \<Rightarrow> request list \<times> client" where
  "handleDelete perms confirm respond i st =
     (if canDelete perms
      then (if confirm ''Are you sure you want to delete this panchayath?''
            then delete_mutate respond st i
            else ([], st))
      else ([], st))"

definition handleSubmit ::
  "permissions \<Rightarrow> string \<Rightarrow> (request \<Rightarrow> 'e option) \<Rightarrow> client \<Rightarrow> request list \<times> client" where
  "handleSubmit perms now respond st =
     (if canWrite perms then save_mutate now respond st (formData st) else ([], st))"

definition resetForm :: "client \<Rightarrow> client" where
  "resetForm st = st\<lparr> editingPanchayath := None, formData := empty_form \<rparr>"

definition onChange_name :: "string \<Rightarrow> client \<Rightarrow> client" where
  "onChange_name v st = st\<lparr> formData := (formData st)\<lparr> f_name := v \<rparr> \<rparr>"

definition onChange_district :: "string \<Rightarrow> client \<Rightarrow> client" where
  "onChange_district v st = st\<lparr> formData := (formData st)\<lparr> f_district := v \<rparr> \<rparr>"

definition setIsDialogOpen :: "bool \<Rightarrow> client \<Rightarrow> client" where
  "setIsDialogOpen b st = st\<lparr> isDialogOpen := b \<rparr>"

text \<open>
  Which rows a request's \<open>eq\<close> filters select: a row must hold the given value in each
  named column.
\<close>

definition column :: "panchayath \<Rightarrow> string \<Rightarrow> string option" where
  "column r c =
     (if c = ''id'' then Some (p_id r)
      else if c = ''name'' then Some (p_name r)
      else if c = ''district'' then Some (district r)
      else if c = ''created_at'' then Some (created_at r)
      else if c = ''updated_at'' then Some (updated_at r)
      else None)"

definition targets :: "request \<Rightarrow> panchayath \<Rightarrow> bool" where
  "targets req r = list_all (\<lambda>(c, v). column r c = Some v) (req_eq req)"

subsection \<open>Grouping and rendering\<close>

definition group_step ::
  "panchayath list object \<Rightarrow> panchayath \<Rightarrow> js_error + panchayath list object" where
  \<comment> \<open>\<open>if (!acc[d]) acc[d] = []; acc[d].push(p); return acc;\<close> An array is truthy, an
      inherited function or object is truthy and has no \<open>push\<close>.\<close>
  "group_step acc p =
     (case get_property acc (district p) of
        Own rows \<Rightarrow> Inr (set_own acc (district p) (rows @ [p]))
      | Undefined \<Rightarrow> Inr (set_own acc (district p) [p])
      | Inherited \<Rightarrow> Inl TypeError)"

definition panchayathsByDistrict ::
  "panchayath list option \<Rightarrow> js_error + panchayath list object" where
  \<comment> \<open>\<open>panchayaths?.reduce(..., {}) || {}\<close>\<close>
  "panchayathsByDistrict data =
     (case data of None \<Rightarrow> Inr [] | Some rows \<Rightarrow> reduce group_step rows [])"

record admin_view =
  district_tables :: "(string \<times> panchayath list) list"
  loading_spinner :: bool
  empty_message :: bool

definition own_rows ::
  "panchayath list object \<Rightarrow> string \<Rightarrow> js_error + (string \<times> panchayath list)" where
  "own_rows obj d = (case map_of obj d of Some rows \<Rightarrow> Inr (d, rows) | None \<Rightarrow> Inl TypeError)"

definition render :: "bool \<Rightarrow> panchayath list option \<Rightarrow> js_error + admin_view" where
  \<comment> \<open>one table per key of the grouping object, in the order of \<open>Object.keys\<close>\<close>
  "render isLoading data =
     (case panchayathsByDistrict data of
        Inl e \<Rightarrow> Inl e
      | Inr byDistrict \<Rightarrow>
          (case traverse (own_rows byDistrict) (Object_keys byDistrict) of
             Inl e \<Rightarrow> Inl e
           | Inr tables \<Rightarrow>
               Inr \<lparr> district_tables = tables,
                     loading_spinner = isLoading,
                     empty_message =
                       (\<not> isLoading \<and>
                        (case data of None \<Rightarrow> True | Some rows \<Rightarrow> length rows = 0)) \<rparr>))"

text \<open>
  What the grouping comes to for district names that are neither array indices nor names
  of inherited properties: one entry per district, in the order in which the districts
  first occur in the fetched list, holding that district's rows in fetched order.
\<close>

definition first_occurrences :: "'a list \<Rightarrow> 'a list" where
  "first_occurrences xs = rev (remdups (rev xs))"

definition ordinary_key :: "string \<Rightarrow> bool" where
  "ordinary_key k = (array_index k = None \<and> k \<notin> set Object_prototype_keys)"

definition grouped :: "panchayath list \<Rightarrow> panchayath list object" where
  "grouped ps =
     map (\<lambda>d. (d, filter (\<lambda>p. district p = d) ps)) (first_occurrences (map district ps))"

text \<open>
  A collation the backend may order by: strings compared character by character, by
  character code.
\<close>

fun code_less :: "string \<Rightarrow> string \<Rightarrow> bool" where
  "code_less [] [] = False"
| "code_less [] (y # ys) = True"
| "code_less (x # xs) [] = False"
| "code_less (x # xs) (y # ys) =
     ((of_char x :: int) < of_char y \<or> (x = y \<and> code_less xs ys))"

definition code_le :: "string \<Rightarrow> string \<Rightarrow> bool" where
  "code_le a b = (code_less a b \<or> a = b)"

definition fetched_order :: "panchayath \<Rightarrow> panchayath \<Rightarrow> bool" where
  \<comment> \<open>\<open>p\<close> may stand before \<open>q\<close> in a list ordered by district, then by name\<close>
  "fetched_order p q =
     (code_less (district p) (district q)
      \<or> (district p = district q \<and> code_le (p_name p) (p_name q)))"

subsection \<open>The table behind the requests\<close>

text \<open>
  Modelled from the spec: the \<open>panchayaths\<close> table of the hosted backend, which is not part
  of the source. The spec gives it a unique id per row and the operations insert (a
  row-shaped payload; the backend supplies the id and the two timestamps), update (a
  row-shaped payload and an id filter), delete (an id filter), and the list query ordered
  by district, then name (here in the character-code collation).
\<close>

definition set_column :: "panchayath \<Rightarrow> string \<times> string \<Rightarrow> panchayath" where
  \<comment> \<open>Modelled from the spec: writing one column of a row; the columns are those of the
      spec's Panchayath entity\<close>
  "set_column r cv =
     (if fst cv = ''id'' then r\<lparr>p_id := snd cv\<rparr>
      else if fst cv = ''name'' then r\<lparr>p_name := snd cv\<rparr>
      else if fst cv = ''district'' then r\<lparr>district := snd cv\<rparr>
      else if fst cv = ''created_at'' then r\<lparr>created_at := snd cv\<rparr>
      else if fst cv = ''updated_at'' then r\<lparr>updated_at := snd cv\<rparr>
      else r)"

definition write_payload :: "payload \<Rightarrow> panchayath \<Rightarrow> panchayath" where
  \<comment> \<open>Modelled from the spec: a payload writes its columns, the others stay\<close>
  "write_payload pl r = foldl set_column r pl"

definition backend_apply ::
  "string \<Rightarrow> string \<Rightarrow> panchayath list \<Rightarrow> request \<Rightarrow> panchayath list" where
  \<comment> \<open>Modelled from the spec: what an accepted request does to the stored rows;
      \<open>fresh_id\<close> and \<open>stamp\<close> are the id and the time the backend gives a new row\<close>
  "backend_apply fresh_id stamp rows req =
     (case req_operation req of
        Insert pls \<Rightarrow>
          rows @ map (\<lambda>pl. write_payload pl
                            \<lparr> p_id = fresh_id, p_name = [], district = [],
                              created_at = stamp, updated_at = stamp \<rparr>) pls
      | Update pl \<Rightarrow> map (\<lambda>r. if targets req r then write_payload pl r else r) rows
      | Delete \<Rightarrow> filter (\<lambda>r. \<not> targets req r) rows)"

fun insert_ordered :: "panchayath \<Rightarrow> panchayath list \<Rightarrow> panchayath list" where
  \<comment> \<open>Modelled from the spec: one step of ordering the rows by district, then name\<close>
  "insert_ordered x [] = [x]"
| "insert_ordered x (y # ys) =
     (if fetched_order x y then x # y # ys else y # insert_ordered x ys)"

fun backend_select :: "panchayath list \<Rightarrow> panchayath list" where
  \<comment> \<open>Modelled from the spec: the list query, all rows ordered by district, then name\<close>
  "backend_select [] = []"
| "backend_select (r # rows) = insert_ordered r (backend_select rows)"

text \<open>
  A submission followed by the re-fetch its invalidation triggers: the backend applies
  the requests it accepts, and the list query runs on the rows it then stores.
\<close>

definition save_then_refetch ::
  "permissions \<Rightarrow> string \<Rightarrow> (request \<Rightarrow> 'e option) \<Rightarrow> string \<Rightarrow> string
     \<Rightarrow> panchayath list \<Rightarrow> client \<Rightarrow> client" where
  "save_then_refetch perms now respond fresh_id stamp rows st =
     (let sent = fst (handleSubmit perms now respond st);
          st' = snd (handleSubmit perms now respond st);
          rows' = foldl (\<lambda>t req. if respond req = None
                                   then backend_apply fresh_id stamp t req else t) rows sent
      in refetch (None :: 'e option) (Some (backend_select rows')) st')"

subsection \<open>Sample inputs\<close>

definition mk :: "string \<Rightarrow> string \<Rightarrow> string \<Rightarrow> panchayath" where
  "mk i n d =
     \<lparr> p_id = i, p_name = n, district = d,
       created_at = ''2024-01-01T00:00:00.000Z'',
       updated_at = ''2024-01-01T00:00:00.000Z'' \<rparr>"

definition row1 :: panchayath where
  "row1 = mk ''p1'' ''A'' ''X''"

definition two_rows :: "panchayath list" where
  "two_rows = [row1, mk ''p2'' ''B'' ''X'']"


definition all_permissions :: permissions where
  "all_permissions = \<lparr>canWrite = True, canDelete = True\<rparr>"

definition no_permissions :: permissions where
  "no_permissions = \<lparr>canWrite = False, canDelete = False\<rparr>"

definition accept :: "request \<Rightarrow> string option" where
  "accept req = None"

definition reject :: "request \<Rightarrow> string option" where
  "reject req = Some ''violates foreign key constraint''"

definition yes :: "string \<Rightarrow> bool" where
  "yes question = True"

definition no :: "string \<Rightarrow> bool" where
  "no question = False"

definition remote_insert :: change where
  "remote_insert =
     \<lparr> change_schema = ''public'', change_table = ''panchayaths'', change_type = ''INSERT'',
       change_row = [(''id'', ''p2''), (''name'', ''B''), (''district'', ''X'')] \<rparr>"

section \<open>Properties of the public category listing\<close>

subsection \<open>Display order\<close>

lemma compareFn_rank: "compareFn a b = rank a - rank b"
  by (simp add: compareFn_def rank_def Let_def)

lemma insert_stable_skip:
  "\<forall>a \<in> set as. 0 < cmp x a \<Longrightarrow>
   insert_stable cmp x (as @ bs) = as @ insert_stable cmp x bs"
  by (induction as) simp_all

lemma insert_stable_front:
  "\<forall>b \<in> set bs. \<not> 0 < cmp x b \<Longrightarrow> insert_stable cmp x bs = x # bs"
  by (cases bs) simp_all

lemma buckets_Cons_other:
  "g x \<notin> set rs \<Longrightarrow> buckets g rs (x # xs) = buckets g rs xs"
  by (induction rs) (auto simp: buckets_def)

lemma buckets_keys: "y \<in> set (buckets g rs xs) \<Longrightarrow> g y \<in> set rs"
  by (auto simp: buckets_def)

text \<open>
  Inserting into a list that is laid out rank by rank puts the new element at the head
  of its own rank's run: behind every smaller rank, before its equals.
\<close>

lemma insert_stable_buckets:
  "sorted_wrt (<) rs \<Longrightarrow> g x \<in> set rs \<Longrightarrow>
   insert_stable (\<lambda>a b. g a - g b) x (buckets g rs xs) = buckets g rs (x # xs)"
proof (induction rs)
  case Nil
  then show ?case by simp
next
  case (Cons r rs)
  have split: "buckets g (r # rs) zs = filter (\<lambda>y. g y = r) zs @ buckets g rs zs" for zs
    by (simp add: buckets_def)
  show ?case
  proof (cases "g x = r")
    case True
    from Cons.prems have "g x \<notin> set rs" using True by auto
    then have rest: "buckets g rs (x # xs) = buckets g rs xs"
      by (rule buckets_Cons_other)
    have "\<forall>b \<in> set (buckets g (r # rs) xs). \<not> 0 < g x - g b"
      using Cons.prems(1) True by (auto simp: split dest!: buckets_keys)
    then have "insert_stable (\<lambda>a b. g a - g b) x (buckets g (r # rs) xs)
        = x # buckets g (r # rs) xs"
      by (rule insert_stable_front)
    then show ?thesis using True rest by (simp add: split)
  next
    case False
    with Cons.prems have in_rs: "g x \<in> set rs" and lt: "r < g x" by auto
    from Cons.prems have "sorted_wrt (<) rs" by simp
    from Cons.IH [OF this in_rs]
    have IH: "insert_stable (\<lambda>a b. g a - g b) x (buckets g rs xs) = buckets g rs (x # xs)" .
    have "\<forall>a \<in> set (filter (\<lambda>y. g y = r) xs). 0 < g x - g a"
      using lt by auto
    then have "insert_stable (\<lambda>a b. g a - g b) x (filter (\<lambda>y. g y = r) xs @ buckets g rs xs)
        = filter (\<lambda>y. g y = r) xs @ insert_stable (\<lambda>a b. g a - g b) x (buckets g rs xs)"
      by (rule insert_stable_skip)
    then show ?thesis using False IH by (simp add: split)
  qed
qed

lemma Array_sort_buckets:
  "sorted_wrt (<) rs \<Longrightarrow> \<forall>x \<in> set xs. g x \<in> set rs \<Longrightarrow>
   Array_sort (\<lambda>a b. g a - g b) xs = buckets g rs xs"
proof (induction xs)
  case Nil
  show ?case by (simp add: buckets_def)
next
  case (Cons x xs)
  then show ?case by (simp add: insert_stable_buckets)
qed

lemma indexOf_categoryOrder:
  "indexOf categoryOrder n =
    (if n = ''Pennyekart Free Registration'' then 0
     else if n = ''Pennyekart Paid Registration'' then 1
     else if n = ''Farmelife'' then 2
     else if n = ''Organelife'' then 3
     else if n = ''Foodelife'' then 4
     else if n = ''Entrelife'' then 5
     else if n = ''Job Card'' then 6 else - 1)"
  by (simp add: indexOf_def categoryOrder_def)

lemma rank_cases:
  "rank c = 0 \<longleftrightarrow> c_name c = ''Pennyekart Free Registration''"
  "rank c = 1 \<longleftrightarrow> c_name c = ''Pennyekart Paid Registration''"
  "rank c = 2 \<longleftrightarrow> c_name c = ''Farmelife''"
  "rank c = 3 \<longleftrightarrow> c_name c = ''Organelife''"
  "rank c = 4 \<longleftrightarrow> c_name c = ''Foodelife''"
  "rank c = 5 \<longleftrightarrow> c_name c = ''Entrelife''"
  "rank c = 6 \<longleftrightarrow> c_name c = ''Job Card''"
  "rank c = 999 \<longleftrightarrow> c_name c \<notin> set categoryOrder"
  by (simp_all add: rank_def indexOf_categoryOrder Let_def) (simp add: categoryOrder_def)

lemma rank_range: "rank c \<in> set [0, 1, 2, 3, 4, 5, 6, 999]"
  by (simp add: rank_def indexOf_categoryOrder Let_def)

text \<open>
  Claim C1. The list the query function returns is the fetched list re-sorted so that the
  categories with the first priority name come first, then those with the second, and so
  on through the seven names in the order of \<open>categoryOrder\<close>, and behind all of them the
  categories with any other name; inside each of these runs, and so among the
  unrecognised names, the categories keep the order they had in the fetched array.
\<close>

theorem queryFn_display_order:
  "queryFn None (Some data) =
     Inr (concat (map (\<lambda>n. filter (\<lambda>c. c_name c = n) data) categoryOrder)
          @ filter (\<lambda>c. c_name c \<notin> set categoryOrder) data)"
proof -
  have cmp: "compareFn = (\<lambda>a b. rank a - rank b)"
    by (intro ext) (rule compareFn_rank)
  have "Array_sort compareFn data = buckets rank [0, 1, 2, 3, 4, 5, 6, 999] data"
  proof -
    have "sorted_wrt (<) [0, 1, 2, 3, 4, 5, 6, 999 :: int]" by simp
    moreover have "\<forall>c \<in> set data. rank c \<in> set [0, 1, 2, 3, 4, 5, 6, 999]"
      using rank_range by blast
    ultimately show ?thesis unfolding cmp by (rule Array_sort_buckets)
  qed
  also have "\<dots> = concat (map (\<lambda>n. filter (\<lambda>c. c_name c = n) data) categoryOrder)
          @ filter (\<lambda>c. c_name c \<notin> set categoryOrder) data"
    by (simp add: buckets_def rank_cases) (simp add: categoryOrder_def)
  finally show ?thesis by (simp add: queryFn_def)
qed

subsection \<open>Savings and discount\<close>

text \<open>
  The rounding is the one of the standard: \<open>floor_log2\<close> finds the binade of a positive
  number, and a finite result is within half a unit in the last place of the exact value.
\<close>

lemma bit_length_pos: "0 < n \<Longrightarrow> 0 < bit_length n"
  by (subst bit_length.simps) simp

lemma bit_length_bounds:
  "0 < n \<Longrightarrow> 2 ^ (bit_length n - 1) \<le> n \<and> n < 2 ^ bit_length n"
proof (induction n rule: bit_length.induct)
  case (1 n)
  show ?case
  proof (cases "n div 2 = 0")
    case True
    with "1.prems" have "n = 1" by (simp add: div_eq_0_iff) 
    then show ?thesis by (simp add: bit_length.simps)
  next
    case False
    then have pos: "0 < n div 2" by simp
    from "1.IH" [OF _ pos] "1.prems"
    have IH: "2 ^ (bit_length (n div 2) - 1) \<le> n div 2" "n div 2 < 2 ^ bit_length (n div 2)"
      by simp_all
    have b: "bit_length n = Suc (bit_length (n div 2))"
      using "1.prems" by (subst bit_length.simps) simp
    from bit_length_pos [OF pos] obtain k where k: "bit_length (n div 2) = Suc k"
      by (cases "bit_length (n div 2)") simp_all
    from IH show ?thesis unfolding b k by simp linarith
  qed
qed

lemma floor_log2_bounds:
  assumes "0 < q"
  shows "pow2 (floor_log2 q) \<le> q \<and> q < pow2 (floor_log2 q + 1)"
proof (cases "1 \<le> q")
  case True
  let ?n = "nat \<lfloor>q\<rfloor>"
  have n: "0 < ?n" using True by simp
  from bit_length_pos [OF n] obtain k where k: "bit_length ?n = Suc k"
    by (cases "bit_length ?n") simp_all
  from bit_length_bounds [OF n] have lo: "2 ^ k \<le> ?n" and hi: "?n < 2 ^ Suc k"
    by (simp_all add: k)
  have n_le: "real ?n \<le> q" using True by (simp add: of_nat_nat)
  have "(2::real) ^ k = real (2 ^ k)" by simp
  also from lo have "\<dots> \<le> real ?n" by (rule of_nat_mono)
  also note n_le
  finally have 1: "2 ^ k \<le> q" .
  have "q < real (Suc ?n)" using True by (simp add: of_nat_nat) linarith
  also from hi have "\<dots> \<le> real (2 ^ Suc k)"
    by (intro of_nat_mono) simp
  also have "\<dots> = 2 ^ Suc k" by simp
  finally have 2: "q < 2 ^ Suc k" .
  show ?thesis using True 1 2 by (simp add: floor_log2_def pow2_def k nat_add_distrib)
next
  case False
  let ?m = "nat (\<lceil>1 / q\<rceil> - 1)"
  from False assms have inv: "1 < 1 / q" by simp
  then have c: "2 \<le> \<lceil>1 / q\<rceil>" by (simp add: le_ceiling_iff) 
  then have m: "0 < ?m" by simp
  from bit_length_pos [OF m] obtain k where k: "bit_length ?m = Suc k"
    by (cases "bit_length ?m") simp_all
  from bit_length_bounds [OF m] have lo: "2 ^ k \<le> ?m" and hi: "?m < 2 ^ Suc k"
    by (simp_all add: k)
  have nn: "0 \<le> \<lceil>1 / q\<rceil> - 1" using c by linarith
  have "real ?m = of_int (\<lceil>1 / q\<rceil> - 1)" by (rule of_nat_nat [OF nn])
  then have cast: "real ?m = of_int \<lceil>1 / q\<rceil> - 1" by simp
  have m_lt: "real ?m < 1 / q" unfolding cast using ceiling_correct [of "1 / q"] by simp
  have m_ge: "1 / q \<le> real (Suc ?m)"
    unfolding of_nat_Suc cast using ceiling_correct [of "1 / q"] by simp
  have "(2::real) ^ k = real (2 ^ k)" by simp
  also from lo have "\<dots> \<le> real ?m" by (rule of_nat_mono)
  also note m_lt
  finally have "2 ^ k < 1 / q" .
  then have 2: "q < 1 / 2 ^ k" using assms by (simp add: field_simps)
  note m_ge
  also from hi have "real (Suc ?m) \<le> real (2 ^ Suc k)"
    by (intro of_nat_mono) simp
  also have "\<dots> = 2 ^ Suc k" by simp
  finally have "1 / q \<le> 2 ^ Suc k" .
  then have 1: "1 / 2 ^ Suc k \<le> q" using assms by (simp add: field_simps)
  show ?thesis
    using False 1 2 by (simp add: floor_log2_def pow2_def k nat_add_distrib) 
qed



lemma pow2_pos: "0 < pow2 e"
  by (simp add: pow2_def)


lemma pow2_powi: "pow2 e = 2 powi e"
  by (simp add: pow2_def power_int_def field_simps)

lemma pow2_less_iff: "pow2 a < pow2 b \<longleftrightarrow> a < b"
proof
  assume "pow2 a < pow2 b"
  show "a < b"
  proof (rule ccontr)
    assume "\<not> a < b"
    then have "b \<le> a" by simp
    then have "pow2 b \<le> pow2 a"
      unfolding pow2_powi by (rule power_int_increasing) simp
    with \<open>pow2 a < pow2 b\<close> show False by simp
  qed
next
  assume "a < b"
  then show "pow2 a < pow2 b"
    unfolding pow2_powi by (rule power_int_strict_increasing) simp
qed

lemma pow2_add: "pow2 (a + b) = pow2 a * pow2 b"
  by (simp add: pow2_powi power_int_add)

lemma floor_log2_mono:
  assumes "0 < x" and "x \<le> y"
  shows "floor_log2 x \<le> floor_log2 y"
proof -
  have "pow2 (floor_log2 x) \<le> x" using floor_log2_bounds [OF assms(1)] by simp
  also note assms(2)
  also have "y < pow2 (floor_log2 y + 1)" using floor_log2_bounds [of y] assms by simp
  finally show ?thesis by (simp add: pow2_less_iff)
qed

lemma floor_log2_less:
  assumes "0 < x" and "x < pow2 n"
  shows "floor_log2 x < n"
proof -
  have "pow2 (floor_log2 x) \<le> x" using floor_log2_bounds [OF assms(1)] by simp
  also note assms(2)
  finally show ?thesis by (simp add: pow2_less_iff)
qed

lemma round_ties_even_le:
  assumes "x \<le> of_int k"
  shows "round_ties_even x \<le> k"
proof -
  have f: "\<lfloor>x\<rfloor> \<le> k" using assms by (simp add: floor_le_iff)
  show ?thesis
  proof (cases "x = of_int k")
    case True
    then show ?thesis by (simp add: round_ties_even_def)
  next
    case False
    with assms have "x < of_int k" by simp
    then have "\<lfloor>x\<rfloor> < k" by (simp add: floor_less_iff)
    then show ?thesis by (simp add: round_ties_even_def Let_def)
  qed
qed

lemma round_ties_even_nonneg: "0 \<le> x \<Longrightarrow> 0 \<le> round_ties_even x"
  by (simp add: round_ties_even_def Let_def)

text \<open>
  Rounding does not cross a number of the grid it rounds to: a result is at most any
  upper bound of the exact value that is itself a multiple of the spacing.
\<close>

lemma to_double_upper:
  assumes "0 < q" and "q \<le> M" and "M = of_int k * ulp_of q" and "M < pow2 1024"
  shows "\<exists>r. to_double q = Fin r \<and> 0 \<le> r \<and> r \<le> M"
proof -
  let ?m = "round_ties_even (\<bar>q\<bar> / ulp_of q)"
  have ulp: "0 < ulp_of q" by (simp add: ulp_of_def pow2_pos)
  have "\<bar>q\<bar> / ulp_of q \<le> of_int k"
    using assms ulp by (simp add: field_simps)
  then have mk: "?m \<le> k" by (rule round_ties_even_le)
  have m0: "0 \<le> ?m" using ulp by (intro round_ties_even_nonneg) simp
  have le: "of_int ?m * ulp_of q \<le> M"
    unfolding assms(3) using mk ulp by (intro mult_right_mono) simp_all
  have "\<not> pow2 1024 \<le> of_int ?m * ulp_of q"
    using le assms(4) by linarith
  then have "to_double q = Fin (of_int ?m * ulp_of q)"
    using assms(1) by (simp add: to_double_def Let_def ulp_of_def)
  moreover have "0 \<le> of_int ?m * ulp_of q" using m0 ulp by simp
  ultimately show ?thesis using le by blast
qed


lemma pow2_cancel: "e \<le> 52 \<Longrightarrow> 2 ^ nat (52 - e) * pow2 (e - 52) = 1"
proof (cases "e = 52")
  case True
  then show ?thesis by (simp add: pow2_def)
next
  case False
  assume "e \<le> 52"
  with False have "e - 52 < 0" and "- (e - 52) = 52 - e" by simp_all
  then have "pow2 (e - 52) = 1 / 2 ^ nat (52 - e)" by (simp add: pow2_def)
  then show ?thesis by simp
qed

lemma ulp_of_grid:
  assumes "0 < q" and "q < pow2 n" and "n \<le> 53"
  shows "of_int k = of_int (k * 2 ^ nat (52 - max (floor_log2 \<bar>q\<bar>) (- 1022))) * ulp_of q"
proof -
  define e where "e = max (floor_log2 \<bar>q\<bar>) (- 1022)"
  have "floor_log2 \<bar>q\<bar> < n" using floor_log2_less [of q n] assms by simp
  then have e: "e \<le> 52" using assms(3) by (simp add: e_def)
  have "of_int (k * 2 ^ nat (52 - e)) * pow2 (e - 52)
          = of_int k * (2 ^ nat (52 - e) * pow2 (e - 52))"
    by simp
  also have "\<dots> = of_int k" by (simp only: pow2_cancel [OF e] mult_1_right)
  finally show ?thesis by (simp add: ulp_of_def e_def)
qed

lemma to_double_upper_int:
  assumes "0 \<le> q" and "q \<le> of_int k" and "of_int k < pow2 n" and "n \<le> 53"
  shows "\<exists>r. to_double q = Fin r \<and> 0 \<le> r \<and> r \<le> of_int k"
proof (cases "q = 0")
  case True
  with assms show ?thesis by (simp add: to_double_def)
next
  case False
  with assms have q: "0 < q" by simp
  have lt: "q < pow2 n" using assms by simp
  have big: "(of_int k :: real) < pow2 1024"
  proof -
    have "pow2 n \<le> pow2 1024"
      unfolding pow2_powi using assms(4) by (intro power_int_increasing) simp_all
    with assms(3) show ?thesis by simp
  qed
  show ?thesis
    by (rule to_double_upper [OF q assms(2) ulp_of_grid [OF q lt assms(4)] big])
qed


lemma double_on_grid:
  assumes "to_double a = Fin a" and "0 < a"
  shows "\<exists>m. a = of_int m * ulp_of a" and "a < pow2 1024"
proof -
  let ?m = "round_ties_even (\<bar>a\<bar> / ulp_of a)"
  from assms have "\<not> pow2 1024 \<le> of_int ?m * ulp_of a \<and> a = of_int ?m * ulp_of a"
    by (simp add: to_double_def Let_def ulp_of_def split: if_splits)
  then show "\<exists>m. a = of_int m * ulp_of a" and "a < pow2 1024"
    by (blast, linarith)
qed

lemma ulp_of_coarser:
  assumes "0 < q" and "q \<le> a"
  shows "\<exists>j::int. ulp_of a = of_int j * ulp_of q"
proof -
  define eq where "eq = max (floor_log2 \<bar>q\<bar>) (- 1022)"
  define ea where "ea = max (floor_log2 \<bar>a\<bar>) (- 1022)"
  have "floor_log2 \<bar>q\<bar> \<le> floor_log2 \<bar>a\<bar>"
    using floor_log2_mono [of q a] assms by simp
  then have le: "eq \<le> ea" by (simp add: eq_def ea_def)
  have "pow2 (ea - 52) = pow2 ((ea - eq) + (eq - 52))" by simp
  also have "\<dots> = pow2 (ea - eq) * pow2 (eq - 52)" by (rule pow2_add)
  also have "pow2 (ea - eq) = of_int (2 ^ nat (ea - eq))" using le by (simp add: pow2_def)
  finally show ?thesis unfolding ulp_of_def eq_def ea_def by blast
qed

lemma to_double_upper_double:
  assumes "0 \<le> q" and "q \<le> a" and "to_double a = Fin a" and "0 < a"
  shows "\<exists>r. to_double q = Fin r \<and> 0 \<le> r \<and> r \<le> a"
proof (cases "q = 0")
  case True
  with assms show ?thesis by (simp add: to_double_def)
next
  case False
  with assms have q: "0 < q" by simp
  from double_on_grid [OF assms(3,4)] obtain m where m: "a = of_int m * ulp_of a"
    and big: "a < pow2 1024" by blast
  from ulp_of_coarser [OF q assms(2)] obtain j where j: "ulp_of a = of_int j * ulp_of q"
    by blast
  have "a = of_int (m * j) * ulp_of q"
    by (subst m, subst j) simp
  from to_double_upper [OF q assms(2) this big] show ?thesis .
qed

text \<open>
  With the fees the data model expects, a positive \<open>actual_fee\<close> and an \<open>offer_fee\<close>
  between \<open>0\<close> and \<open>actual_fee\<close>, the discount shown is a whole number from \<open>0\<close> to
  \<open>100\<close>.
\<close>

lemma discount_range:
  assumes double: "to_double a = Fin a" and pos: "0 < a" and offer: "0 \<le> b" "b \<le> a"
  shows "\<exists>n. discount_off (renderCard (c\<lparr>actual_fee := Fin a, offer_fee := Fin b\<rparr>))
                = Fin (of_int n)
              \<and> 0 \<le> n \<and> n \<le> 100"
proof -
  from to_double_upper_double [of "a - b" a] assms
  obtain d where d: "to_double (a - b) = Fin d" "0 \<le> d" "d \<le> a"
    by auto
  have "0 \<le> d / a" "d / a \<le> of_int 1" using d pos by simp_all
  from to_double_upper_int [OF this, of 1]
  obtain \<rho> where \<rho>: "to_double (d / a) = Fin \<rho>" "0 \<le> \<rho>" "\<rho> \<le> 1"
    by (auto simp: pow2_def)
  have "0 \<le> \<rho> * 100" "\<rho> * 100 \<le> of_int 100" using \<rho> by simp_all
  from to_double_upper_int [OF this, of 7]
  obtain \<pi> where \<pi>: "to_double (\<rho> * 100) = Fin \<pi>" "0 \<le> \<pi>" "\<pi> \<le> 100"
    by (auto simp: pow2_def)
  have "discount_off (renderCard (c\<lparr>actual_fee := Fin a, offer_fee := Fin b\<rparr>))
          = Fin (of_int \<lfloor>\<pi> + 1 / 2\<rfloor>)"
    using pos d \<rho> \<pi> by (simp add: renderCard_def)
  moreover have "0 \<le> \<lfloor>\<pi> + 1 / 2\<rfloor>" using \<pi> by simp
  moreover have "\<lfloor>\<pi> + 1 / 2\<rfloor> \<le> 100" using \<pi> by (simp add: floor_le_iff)
  ultimately show ?thesis by blast
qed






lemma Math_round_not_NaN: "z \<noteq> NaN \<Longrightarrow> Math_round z \<noteq> NaN"
  by (cases z) simp_all





















section \<open>Properties of the admin panchayath view\<close>

subsection \<open>Empty row sets\<close>

text \<open>
  Claim C10. When a successful fetch brings \<open>null\<close> in place of rows, the public query
  function returns the empty list and the page built from it shows no card and the
  "No categories available" text; the admin grouping of absent data is the empty object,
  and the admin view shows no table and the "No panchayaths found" text. Neither fails.
\<close>

theorem null_rows_render_empty_state:
  "queryFn None None = Inr []
   \<and> CategoriesPage False False (Some []) = Listing [] True
   \<and> panchayathsByDistrict None = Inr []
   \<and> render False None =
       Inr \<lparr>district_tables = [], loading_spinner = False, empty_message = True\<rparr>"
  by (simp add: queryFn_def CategoriesPage_def panchayathsByDistrict_def render_def
      Object_keys_def)

subsection \<open>Grouping by district\<close>

lemma first_occurrences_snoc:
  "first_occurrences (xs @ [x]) =
     (if x \<in> set xs then first_occurrences xs else first_occurrences xs @ [x])"
  by (simp add: first_occurrences_def)

lemma set_first_occurrences [simp]: "set (first_occurrences xs) = set xs"
  by (simp add: first_occurrences_def)

lemma distinct_first_occurrences [simp]: "distinct (first_occurrences xs)"
  by (simp add: first_occurrences_def)

lemma map_of_tabulate:
  "map_of (map (\<lambda>k. (k, f k)) ks) k = (if k \<in> set ks then Some (f k) else None)"
  by (induction ks) auto

lemma set_own_absent:
  "k \<notin> set ks \<Longrightarrow> set_own (map (\<lambda>d. (d, f d)) ks) k v = map (\<lambda>d. (d, f d)) ks @ [(k, v)]"
  by (induction ks) auto

lemma set_own_present:
  "k \<in> set ks \<Longrightarrow> distinct ks \<Longrightarrow>
   set_own (map (\<lambda>d. (d, f d)) ks) k v = map (\<lambda>d. (d, if d = k then v else f d)) ks"
  by (induction ks) auto

lemma filter_absent: "d \<notin> set (map f ps) \<Longrightarrow> filter (\<lambda>q. f q = d) ps = []"
  by (induction ps) auto

lemma tabulate_snoc_other:
  "f p \<notin> set ks \<Longrightarrow>
   map (\<lambda>d. (d, filter (\<lambda>q. f q = d) (ps @ [p]))) ks = map (\<lambda>d. (d, filter (\<lambda>q. f q = d) ps)) ks"
  by (induction ks) auto

lemma group_step_grouped:
  assumes "district p \<notin> set Object_prototype_keys"
  shows "group_step (grouped ps) p = Inr (grouped (ps @ [p]))"
proof (cases "district p \<in> set (map district ps)")
  case True
  then have "get_property (grouped ps) (district p) = Own (filter (\<lambda>q. district q = district p) ps)"
    by (simp add: get_property_def grouped_def map_of_tabulate)
  moreover have "set_own (grouped ps) (district p) (filter (\<lambda>q. district q = district p) ps @ [p])
      = grouped (ps @ [p])"
    using True unfolding grouped_def
    by (subst set_own_present) (auto simp: first_occurrences_snoc)
  ultimately show ?thesis by (simp add: group_step_def)
next
  case False
  then have "get_property (grouped ps) (district p) = Undefined"
    using assms by (simp add: get_property_def grouped_def map_of_tabulate)
  moreover have "set_own (grouped ps) (district p) [p] = grouped (ps @ [p])"
  proof -
    have none: "filter (\<lambda>q. district q = district p) ps = []"
      using False by (rule filter_absent)
    have same: "map (\<lambda>d. (d, filter (\<lambda>q. district q = d) (ps @ [p]))) (first_occurrences (map district ps))
       = map (\<lambda>d. (d, filter (\<lambda>q. district q = d) ps)) (first_occurrences (map district ps))"
      by (rule tabulate_snoc_other) (use False in simp)
    have absent: "district p \<notin> set (first_occurrences (map district ps))"
      using False by simp
    show ?thesis
      unfolding grouped_def set_own_absent [OF absent]
      using False by (auto simp: first_occurrences_snoc none same)
  qed
  ultimately show ?thesis by (simp add: group_step_def)
qed

lemma reduce_group_step:
  "list_all (\<lambda>p. district p \<notin> set Object_prototype_keys) xs \<Longrightarrow>
   reduce group_step xs (grouped ps) = Inr (grouped (ps @ xs))"
proof (induction xs arbitrary: ps)
  case Nil
  show ?case by simp
next
  case (Cons x xs)
  then show ?case using Cons.IH [of "ps @ [x]"] by (simp add: group_step_grouped)
qed

lemma traverse_total:
  "\<forall>k \<in> set ks. f k = Inr (g k) \<Longrightarrow> traverse f ks = Inr (map g ks)"
  by (induction ks) auto

lemma Object_keys_ordinary:
  "list_all (\<lambda>k. array_index k = None) (map fst obj) \<Longrightarrow> Object_keys obj = map fst obj"
proof -
  assume a: "list_all (\<lambda>k. array_index k = None) (map fst obj)"
  then have "filter (\<lambda>k. array_index k \<noteq> None) (map fst obj) = []"
    by (auto simp: filter_empty_conv list_all_iff)
  moreover from a have "filter (\<lambda>k. array_index k = None) (map fst obj) = map fst obj"
    by (auto simp: list_all_iff intro: filter_True)
  ultimately show ?thesis by (simp add: Object_keys_def)
qed

text \<open>
  For a fetched list whose district names are all ordinary, the view shows exactly the
  tables of \<open>grouped\<close>: nothing is thrown, and \<open>Object.keys\<close> keeps the creation order.
\<close>

lemma render_ordinary_districts:
  assumes "list_all (\<lambda>p. ordinary_key (district p)) ps"
  shows "render isLoading (Some ps) =
           Inr \<lparr> district_tables = grouped ps,
                 loading_spinner = isLoading,
                 empty_message = (\<not> isLoading \<and> ps = []) \<rparr>"
proof -
  have "list_all (\<lambda>p. district p \<notin> set Object_prototype_keys) ps"
    using assms by (auto simp: list_all_iff ordinary_key_def)
  from reduce_group_step [OF this, of "[]"]
  have by_district: "panchayathsByDistrict (Some ps) = Inr (grouped ps)"
    by (simp add: panchayathsByDistrict_def grouped_def first_occurrences_def)
  have keys: "Object_keys (grouped ps) = first_occurrences (map district ps)"
  proof -
    have "map fst (grouped ps) = first_occurrences (map district ps)"
      by (simp add: grouped_def comp_def)
    moreover have "list_all (\<lambda>k. array_index k = None) (first_occurrences (map district ps))"
      using assms by (auto simp: list_all_iff ordinary_key_def)
    ultimately show ?thesis by (simp add: Object_keys_ordinary)
  qed
  have "traverse (own_rows (grouped ps)) (first_occurrences (map district ps))
          = Inr (map (\<lambda>d. (d, filter (\<lambda>p. district p = d) ps))
                  (first_occurrences (map district ps)))"
    by (rule traverse_total) (simp add: own_rows_def grouped_def map_of_tabulate)
  then have tables: "traverse (own_rows (grouped ps)) (Object_keys (grouped ps)) = Inr (grouped ps)"
    by (simp add: keys) (simp add: grouped_def)
  show ?thesis
    by (simp add: render_def by_district tables)
qed

text \<open>
  The backend orders the rows by district and then by name, in its own collation: \<open>lt\<close>
  is its strict order on districts, \<open>le\<close> its order on names. On a list ordered so, the
  tables of \<open>grouped\<close> are in ascending district order, no district has two tables, every
  district of the list has one, and each table holds exactly its district's rows, in
  ascending name order.
\<close>

lemma sorted_wrt_first_occurrences:
  "sorted_wrt Q xs \<Longrightarrow> sorted_wrt Q (first_occurrences xs)"
proof (induction xs rule: rev_induct)
  case Nil
  show ?case by (simp add: first_occurrences_def)
next
  case (snoc x xs)
  then show ?case by (simp add: first_occurrences_snoc sorted_wrt_append)
qed

lemma sorted_wrt_distinct_strict:
  "sorted_wrt Q xs \<Longrightarrow> distinct xs \<Longrightarrow> sorted_wrt (\<lambda>a b. Q a b \<and> a \<noteq> b) xs"
  by (induction xs) auto

lemma ordered_groups:
  assumes fetched:
      "sorted_wrt (\<lambda>p q. lt (district p) (district q)
                          \<or> (district p = district q \<and> le (p_name p) (p_name q))) ps"
    and irrefl: "\<forall>d. \<not> lt d d"
  shows "sorted_wrt lt (map fst (grouped ps))
         \<and> list_all (\<lambda>(d, rows). rows = filter (\<lambda>p. district p = d) ps \<and> rows \<noteq> []
                                  \<and> sorted_wrt le (map p_name rows)) (grouped ps)
         \<and> distinct (map fst (grouped ps))
         \<and> set (map fst (grouped ps)) = district ` set ps"
proof -
  let ?ks = "first_occurrences (map district ps)"
  have keys: "map fst (grouped ps) = ?ks"
    by (simp add: grouped_def comp_def)
  have "sorted_wrt (\<lambda>a b. lt a b \<or> a = b) (map district ps)"
    using fetched by (auto simp: sorted_wrt_map elim: sorted_wrt_mono_rel [rotated])
  then have "sorted_wrt (\<lambda>a b. lt a b \<or> a = b) ?ks"
    by (rule sorted_wrt_first_occurrences)
  then have "sorted_wrt (\<lambda>a b. (lt a b \<or> a = b) \<and> a \<noteq> b) ?ks"
    by (rule sorted_wrt_distinct_strict) simp
  then have 1: "sorted_wrt lt ?ks"
    by (rule sorted_wrt_mono_rel [rotated]) auto
  have names: "sorted_wrt le (map p_name (filter (\<lambda>p. district p = d) ps))" for d
  proof -
    have "sorted_wrt (\<lambda>p q. lt (district p) (district q)
                          \<or> (district p = district q \<and> le (p_name p) (p_name q)))
           (filter (\<lambda>p. district p = d) ps)"
      using fetched by (rule sorted_wrt_filter)
    then have "sorted_wrt (\<lambda>p q. le (p_name p) (p_name q)) (filter (\<lambda>p. district p = d) ps)"
      by (rule sorted_wrt_mono_rel [rotated]) (use irrefl in auto)
    then show ?thesis by (simp add: sorted_wrt_map)
  qed
  have 2: "list_all (\<lambda>(d, rows). rows = filter (\<lambda>p. district p = d) ps \<and> rows \<noteq> []
                                  \<and> sorted_wrt le (map p_name rows)) (grouped ps)"
    using names by (auto simp: grouped_def list_all_iff filter_empty_conv)
  show ?thesis using 1 2 by (simp add: keys)
qed

lemma code_less_irrefl: "\<not> code_less s s"
  by (induction s) simp_all

text \<open>
  Together, with the character-code collation: a fetched list of ordinary district names
  that is ordered by district, then name, is shown as the claim describes.
\<close>

lemma ordinary_districts_in_order:
  assumes ordinary: "list_all (\<lambda>p. ordinary_key (district p)) ps"
    and fetched: "sorted_wrt fetched_order ps"
  shows "render isLoading (Some ps) =
           Inr \<lparr> district_tables = grouped ps,
                 loading_spinner = isLoading,
                 empty_message = (\<not> isLoading \<and> ps = []) \<rparr>
         \<and> sorted_wrt code_less (map fst (grouped ps))
         \<and> list_all (\<lambda>(d, rows). rows = filter (\<lambda>p. district p = d) ps \<and> rows \<noteq> []
                                  \<and> sorted_wrt code_le (map p_name rows)) (grouped ps)
         \<and> distinct (map fst (grouped ps))
         \<and> set (map fst (grouped ps)) = district ` set ps"
proof -
  have "sorted_wrt (\<lambda>p q. code_less (district p) (district q)
                          \<or> (district p = district q \<and> code_le (p_name p) (p_name q))) ps"
    using fetched by (simp add: fetched_order_def [abs_def])
  moreover have "\<forall>d. \<not> code_less d d"
    by (simp add: code_less_irrefl)
  ultimately show ?thesis
    using render_ordinary_districts [OF ordinary] ordered_groups [of code_less code_le ps]
    by simp
qed

text \<open>
  Rows \<open>A\<close> and \<open>B\<close> of district \<open>X\<close> and row \<open>C\<close> of district \<open>Y\<close> give two tables.
\<close>

lemma grouping_example:
  "render False (Some [mk ''p1'' ''A'' ''X'', mk ''p2'' ''B'' ''X'', mk ''p3'' ''C'' ''Y''])
     = Inr \<lparr> district_tables =
               [(''X'', [mk ''p1'' ''A'' ''X'', mk ''p2'' ''B'' ''X'']),
                (''Y'', [mk ''p3'' ''C'' ''Y''])],
             loading_spinner = False,
             empty_message = False \<rparr>"
proof -
  have "list_all (\<lambda>p. ordinary_key (district p))
          [mk ''p1'' ''A'' ''X'', mk ''p2'' ''B'' ''X'', mk ''p3'' ''C'' ''Y'']"
    by (simp add: ordinary_key_def array_index_def is_digit_def Object_prototype_keys_def
        mk_def)
  from render_ordinary_districts [OF this, of False]
  show ?thesis by (simp add: grouped_def first_occurrences_def mk_def)
qed

lemma array_index_9: "array_index ''9'' = Some 9"
  by (simp add: array_index_def is_digit_def decimal_value_def)

lemma array_index_10: "array_index ''10'' = Some 10"
  by (simp add: array_index_def is_digit_def decimal_value_def)

text \<open>
  Claim C3. The grouping object is a plain object, so the claim fails for two kinds of
  district names. A district named like a property of \<open>Object.prototype\<close> makes the
  grouping throw a \<open>TypeError\<close>, and the view shows nothing. Districts that are array
  indices are listed by \<open>Object.keys\<close> in numeric order: the list with districts \<open>10\<close>,
  \<open>9\<close> is in ascending order of its districts as strings, and its groups are shown in the
  order \<open>9\<close>, \<open>10\<close>, which is not.
\<close>

theorem grouping_on_plain_object:
  "render False (Some [mk ''p1'' ''A'' ''constructor'']) = Inl TypeError
   \<and> sorted_wrt fetched_order [mk ''p1'' ''A'' ''10'', mk ''p2'' ''B'' ''9'']
   \<and> render False (Some [mk ''p1'' ''A'' ''10'', mk ''p2'' ''B'' ''9''])
       = Inr \<lparr> district_tables =
                 [(''9'', [mk ''p2'' ''B'' ''9'']), (''10'', [mk ''p1'' ''A'' ''10''])],
               loading_spinner = False,
               empty_message = False \<rparr>
   \<and> \<not> sorted_wrt code_less [''9'', ''10'']"
  by (simp add: render_def panchayathsByDistrict_def group_step_def get_property_def
      Object_prototype_keys_def Object_keys_def array_index_10 array_index_9 own_rows_def
      mk_def fetched_order_def)

subsection \<open>Cache and subscription lemmas\<close>

lemma invalidateQueries_idem:
  "invalidateQueries k (invalidateQueries k cache) = invalidateQueries k cache"
  by (induction cache) (auto simp: invalidateQueries_def)

lemma invalidate_list_idem: "invalidate_list (invalidate_list st) = invalidate_list st"
  by (simp add: invalidate_list_def invalidateQueries_idem)

lemma map_of_invalidateQueries:
  "map_of (invalidateQueries k cache) q =
     (case map_of cache q of
        None \<Rightarrow> None
      | Some entry \<Rightarrow> Some (if key_matches k q then entry\<lparr>isInvalidated := True\<rparr> else entry))"
  by (induction cache) (auto simp: invalidateQueries_def)

lemma map_of_store_entry: "map_of (store_entry cache k entry) k = Some entry"
  by (induction cache k entry rule: store_entry.induct) auto

lemma panchayaths_invalidate_list: "panchayaths (invalidate_list st) = panchayaths st"
  by (simp add: panchayaths_def invalidate_list_def map_of_invalidateQueries split: option.splits)

lemma panchayaths_refetch: "panchayaths (refetch None rows st) = rows"
  by (simp add: panchayaths_def refetch_def admin_queryFn_def map_of_store_entry)

lemma fold_on_change:
  "fold (\<lambda>sub s. if P sub then invalidate_list s else s) subs st =
     (if \<exists>sub \<in> set subs. P sub then invalidate_list st else st)"
  by (induction subs arbitrary: st) (auto simp: invalidate_list_idem)

lemma notify_eq:
  "notify c st =
     (if \<exists>sub \<in> set (channels st). listens sub c then invalidate_list st else st)"
  unfolding notify_def on_change_def by (rule fold_on_change)

subsection \<open>Permission guards\<close>

text \<open>
  Claim C4. The delete handler sends nothing and leaves the client state as it is unless
  \<open>permissions.canDelete\<close> holds and the user answers the confirmation question with yes;
  whenever it sends a request, both hold. The submit handler sends nothing and leaves the
  client state as it is unless \<open>permissions.canWrite\<close> holds; whenever it sends a request,
  the permission holds.
\<close>

theorem mutation_guards:
  "(\<not> (canDelete perms \<and> confirm ''Are you sure you want to delete this panchayath?'')
      \<longrightarrow> handleDelete perms confirm respond i st = ([], st))
   \<and> (fst (handleDelete perms confirm respond i st) \<noteq> []
      \<longrightarrow> canDelete perms \<and> confirm ''Are you sure you want to delete this panchayath?'')
   \<and> (\<not> canWrite perms \<longrightarrow> handleSubmit perms now respond st = ([], st))
   \<and> (fst (handleSubmit perms now respond st) \<noteq> [] \<longrightarrow> canWrite perms)"
  by (simp add: handleDelete_def handleSubmit_def)

theorem mutation_guards_witness:
  "handleDelete no_permissions yes accept ''p1'' initial_client = ([], initial_client)
   \<and> handleDelete all_permissions no accept ''p1'' initial_client = ([], initial_client)
   \<and> handleSubmit no_permissions ''2024-06-01T00:00:00.000Z'' accept initial_client
       = ([], initial_client)
   \<and> fst (handleDelete all_permissions yes accept ''p1'' initial_client) \<noteq> []
   \<and> canDelete all_permissions
   \<and> yes ''Are you sure you want to delete this panchayath?''
   \<and> fst (handleSubmit all_permissions ''2024-06-01T00:00:00.000Z'' accept initial_client) \<noteq> []
   \<and> canWrite all_permissions"
  using
    mutation_guards [where perms = no_permissions and confirm = yes and respond = accept
      and i = "''p1''" and st = initial_client and now = "''2024-06-01T00:00:00.000Z''"]
    mutation_guards [where perms = all_permissions and confirm = no and respond = accept
      and i = "''p1''" and st = initial_client and now = "''2024-06-01T00:00:00.000Z''"]
    mutation_guards [where perms = all_permissions and confirm = yes and respond = accept
      and i = "''p1''" and st = initial_client and now = "''2024-06-01T00:00:00.000Z''"]
  by (simp add: no_permissions_def all_permissions_def yes_def no_def handleDelete_def
      handleSubmit_def delete_mutate_def save_mutate_def Let_def)

subsection \<open>Update or insert\<close>

text \<open>
  Claim C5. With write permission, submitting the form sends exactly one request. It is an
  update of the form's fields with \<open>updated_at\<close> set to the current time, filtered to the
  id of the editing selection, when there is an editing selection, and the insert of one
  row with the form's fields when there is none. The edit button sets the selection (and
  loads the row into the form); the add button and the initial state have none.
\<close>

theorem submit_update_iff_editing:
  assumes "canWrite perms"
  shows "fst (handleSubmit perms now respond st) =
           [case editingPanchayath st of
              Some p \<Rightarrow>
                Request ''panchayaths''
                  (Update [(''name'', f_name (formData st)),
                           (''district'', f_district (formData st)),
                           (''updated_at'', now)])
                  [(''id'', p_id p)]
            | None \<Rightarrow>
                Request ''panchayaths''
                  (Insert [[(''name'', f_name (formData st)),
                            (''district'', f_district (formData st))]])
                  []]
         \<and> editingPanchayath (handleEdit p st) = Some p
         \<and> formData (handleEdit p st) = \<lparr>f_name = p_name p, f_district = district p\<rparr>
         \<and> editingPanchayath (resetForm st) = None
         \<and> editingPanchayath initial_client = None"
  using assms
  by (simp add: handleSubmit_def save_mutate_def save_mutationFn_def spread_def handleEdit_def
      resetForm_def initial_client_def Let_def split: option.splits)

theorem submit_update_iff_editing_witness:
  "canWrite all_permissions
   \<and> fst (handleSubmit all_permissions ''2024-06-01T00:00:00.000Z'' accept
            (onChange_name ''B'' (handleEdit row1 initial_client)))
       = [Request ''panchayaths''
            (Update [(''name'', ''B''), (''district'', ''X''), (''updated_at'', ''2024-06-01T00:00:00.000Z'')])
            [(''id'', ''p1'')]]
   \<and> fst (handleSubmit all_permissions ''2024-06-01T00:00:00.000Z'' accept
            (onChange_district ''Y'' (onChange_name ''C'' (resetForm initial_client))))
       = [Request ''panchayaths'' (Insert [[(''name'', ''C''), (''district'', ''Y'')]]) []]"
  using
    submit_update_iff_editing [where perms = all_permissions and now = "''2024-06-01T00:00:00.000Z''"
      and respond = accept and st = "onChange_name ''B'' (handleEdit row1 initial_client)"
      and p = row1]
    submit_update_iff_editing [where perms = all_permissions and now = "''2024-06-01T00:00:00.000Z''"
      and respond = accept
      and st = "onChange_district ''Y'' (onChange_name ''C'' (resetForm initial_client))"
      and p = row1]
  by (simp add: all_permissions_def onChange_name_def onChange_district_def handleEdit_def
      resetForm_def initial_client_def row1_def mk_def empty_form_def)

text \<open>
  Claim C9. The update sent from the edit flow carries the columns \<open>name\<close>, \<open>district\<close> and
  \<open>updated_at\<close> and no other: neither \<open>id\<close> nor \<open>created_at\<close>. Its only filter is the id
  of the editing selection, so the rows it selects are exactly those with that id.
\<close>

theorem update_payload_frame:
  assumes "canWrite perms" and "editingPanchayath st = Some p"
  shows "\<exists>pl. fst (handleSubmit perms now respond st)
                 = [Request ''panchayaths'' (Update pl) [(''id'', p_id p)]]
              \<and> map fst pl = [''name'', ''district'', ''updated_at'']
              \<and> ''id'' \<notin> set (map fst pl)
              \<and> ''created_at'' \<notin> set (map fst pl)
              \<and> (\<forall>r. targets (Request ''panchayaths'' (Update pl) [(''id'', p_id p)]) r
                        = (p_id r = p_id p))"
proof -
  let ?pl = "[(''name'', f_name (formData st)), (''district'', f_district (formData st)),
              (''updated_at'', now)]"
  have "fst (handleSubmit perms now respond st)
          = [Request ''panchayaths'' (Update ?pl) [(''id'', p_id p)]]"
    using assms
    by (simp add: handleSubmit_def save_mutate_def save_mutationFn_def spread_def Let_def)
  moreover have "\<forall>r. targets (Request ''panchayaths'' (Update ?pl) [(''id'', p_id p)]) r
                        = (p_id r = p_id p)"
    by (simp add: targets_def column_def)
  ultimately show ?thesis by (intro exI [of _ ?pl]) simp
qed

theorem update_payload_frame_witness:
  "canWrite all_permissions
   \<and> editingPanchayath (handleEdit row1 initial_client) = Some row1
   \<and> (\<exists>pl. fst (handleSubmit all_permissions
                    ''2024-06-01T00:00:00.000Z'' accept
                    (handleEdit row1 initial_client))
                 = [Request ''panchayaths'' (Update pl) [(''id'', ''p1'')]]
              \<and> map fst pl = [''name'', ''district'', ''updated_at''])"
proof -
  have w: "canWrite all_permissions" by (simp add: all_permissions_def)
  have e: "editingPanchayath (handleEdit row1 initial_client) = Some row1"
    by (simp add: handleEdit_def)
  from update_payload_frame [OF w e, where now = "''2024-06-01T00:00:00.000Z''"
      and respond = accept]
  show ?thesis using w e by (auto simp: row1_def mk_def)
qed

subsection \<open>Success and failure of a mutation\<close>

text \<open>
  The list query returns the stored rows, each once, and an accepted update or insert
  leaves exactly one stored row with the id concerned.
\<close>

lemma set_insert_ordered: "set (insert_ordered x xs) = insert x (set xs)"
  by (induction xs) auto

lemma set_backend_select: "set (backend_select rows) = set rows"
  by (induction rows) (simp_all add: set_insert_ordered)

lemma distinct_ids_insert_ordered:
  "distinct (map p_id (insert_ordered x xs)) = distinct (map p_id (x # xs))"
  by (induction xs) (auto simp: set_insert_ordered)

lemma distinct_ids_backend_select:
  "distinct (map p_id (backend_select rows)) = distinct (map p_id rows)"
  by (induction rows) (simp_all add: distinct_ids_insert_ordered set_backend_select)

lemma filter_distinct_key:
  "distinct (map f xs) \<Longrightarrow> x \<in> set xs \<Longrightarrow> filter (\<lambda>y. f y = f x) xs = [x]"
proof (induction xs)
  case Nil
  then show ?case by simp
next
  case (Cons y ys)
  show ?case
  proof (cases "y = x")
    case True
    have "f x \<notin> set (map f ys)" using Cons.prems(1) True by simp
    then have "filter (\<lambda>z. f z = f x) ys = []" by (rule filter_absent)
    then show ?thesis using True by simp
  next
    case False
    with Cons.prems have "x \<in> set ys" by simp
    moreover from this Cons.prems(1) have "f y \<noteq> f x" by auto
    ultimately show ?thesis using Cons by simp
  qed
qed

lemma count_list_distinct_key:
  "distinct (map f xs) \<Longrightarrow> x \<in> set xs \<Longrightarrow> count_list xs x = 1"
  by (induction xs) (auto simp: image_iff)


lemma save_then_refetch_list:
  "panchayaths (save_then_refetch perms now respond fresh_id stamp rows st)
     = Some (backend_select
              (foldl (\<lambda>t req. if respond req = None
                                 then backend_apply fresh_id stamp t req else t)
                 rows (fst (handleSubmit perms now respond st))))"
  by (simp add: save_then_refetch_def Let_def panchayaths_refetch)

lemma write_update_payload:
  "write_payload (spread d @ [(''updated_at'', now)]) r
     = r\<lparr>p_name := f_name d, district := f_district d, updated_at := now\<rparr>"
  by (simp add: write_payload_def spread_def set_column_def)

lemma write_insert_payload:
  "write_payload (spread d)
     \<lparr>p_id = i, p_name = [], district = [], created_at = t, updated_at = t\<rparr>
     = \<lparr>p_id = i, p_name = f_name d, district = f_district d, created_at = t, updated_at = t\<rparr>"
  by (simp add: write_payload_def spread_def set_column_def)

lemma targets_eq_id: "targets (Request tbl op [(''id'', i)]) r = (p_id r = i)"
  by (simp add: targets_def column_def)

lemma shown_once:
  assumes "distinct (map p_id rows')" and "x \<in> set rows'"
  shows "filter (\<lambda>r. p_id r = p_id x) (backend_select rows') = [x]
         \<and> count_list (backend_select rows') x = 1"
proof -
  have d: "distinct (map p_id (backend_select rows'))"
    using assms(1) by (simp add: distinct_ids_backend_select)
  have m: "x \<in> set (backend_select rows')"
    using assms(2) by (simp add: set_backend_select)
  show ?thesis
    using filter_distinct_key [OF d m] count_list_distinct_key [OF d m] by simp
qed

lemma update_then_refetch:
  assumes may_write: "canWrite perms"
    and accepted: "respond (save_mutationFn now (editingPanchayath st) (formData st)) = None"
    and editing: "editingPanchayath st = Some p"
    and keys: "distinct (map p_id rows)"
    and old: "old \<in> set rows" "p_id old = p_id p"
  shows "\<exists>shown. panchayaths (save_then_refetch perms now respond fresh_id stamp rows st)
                    = Some shown
           \<and> filter (\<lambda>r. p_id r = p_id p) shown
               = [old\<lparr>p_name := f_name (formData st), district := f_district (formData st),
                      updated_at := now\<rparr>]
           \<and> count_list shown
                (old\<lparr>p_name := f_name (formData st), district := f_district (formData st),
                     updated_at := now\<rparr>) = 1"
proof -
  let ?g = "\<lambda>r. r\<lparr>p_name := f_name (formData st), district := f_district (formData st),
                     updated_at := now\<rparr>"
  let ?rows' = "map (\<lambda>r. if p_id r = p_id p then ?g r else r) rows"
  have sent: "fst (handleSubmit perms now respond st)
                = [save_mutationFn now (editingPanchayath st) (formData st)]"
    using may_write by (simp add: handleSubmit_def save_mutate_def Let_def)
  have applied: "backend_apply fresh_id stamp rows
                   (save_mutationFn now (editingPanchayath st) (formData st)) = ?rows'"
    by (simp add: editing save_mutationFn_def backend_apply_def targets_eq_id
        write_update_payload)
  have list: "panchayaths (save_then_refetch perms now respond fresh_id stamp rows st)
                = Some (backend_select ?rows')"
    by (simp add: save_then_refetch_list sent accepted applied)
  have ids: "map p_id ?rows' = map p_id rows" by (induction rows) simp_all
  have d: "distinct (map p_id ?rows')" by (simp only: ids keys)
  have m: "?g old \<in> set ?rows'" using old by (auto simp: image_iff)
  from shown_once [OF d m] old(2) list show ?thesis by simp
qed

lemma insert_then_refetch:
  assumes may_write: "canWrite perms"
    and accepted: "respond (save_mutationFn now (editingPanchayath st) (formData st)) = None"
    and editing: "editingPanchayath st = None"
    and keys: "distinct (map p_id rows)"
    and fresh: "fresh_id \<notin> set (map p_id rows)"
  shows "\<exists>shown. panchayaths (save_then_refetch perms now respond fresh_id stamp rows st)
                    = Some shown
           \<and> filter (\<lambda>r. p_id r = fresh_id) shown
               = [\<lparr>p_id = fresh_id, p_name = f_name (formData st),
                    district = f_district (formData st),
                    created_at = stamp, updated_at = stamp\<rparr>]
           \<and> count_list shown
                \<lparr>p_id = fresh_id, p_name = f_name (formData st),
                  district = f_district (formData st),
                  created_at = stamp, updated_at = stamp\<rparr> = 1"
proof -
  let ?new = "\<lparr>p_id = fresh_id, p_name = f_name (formData st),
                district = f_district (formData st),
                created_at = stamp, updated_at = stamp\<rparr>"
  have sent: "fst (handleSubmit perms now respond st)
                = [save_mutationFn now (editingPanchayath st) (formData st)]"
    using may_write by (simp add: handleSubmit_def save_mutate_def Let_def)
  have applied: "backend_apply fresh_id stamp rows
                   (save_mutationFn now (editingPanchayath st) (formData st)) = rows @ [?new]"
    by (simp add: editing save_mutationFn_def backend_apply_def write_insert_payload)
  have list: "panchayaths (save_then_refetch perms now respond fresh_id stamp rows st)
                = Some (backend_select (rows @ [?new]))"
    by (simp add: save_then_refetch_list sent accepted applied)
  have d: "distinct (map p_id (rows @ [?new]))" using keys fresh by simp
  have m: "?new \<in> set (rows @ [?new])" by simp
  from shown_once [OF d m] list show ?thesis by simp
qed


text \<open>
  Claim C6. When the backend accepts a save, the list's cache entry is marked invalidated
  (the other entries of the shared cache are those \<open>invalidateQueries\<close> leaves alone), the
  dialog is closed, the editing selection is cleared and the form is empty again. When
  it accepts a delete, the list's cache entry is marked invalidated. The re-fetch replaces
  the cached list by the rows the backend returns. After an accepted update of a stored
  row, the re-fetched list holds exactly one row with the id of the editing selection,
  and it is the stored row with the form's name and district and the new \<open>updated_at\<close>;
  after an accepted insert it holds exactly one row with the new id, with the form's
  name and district. The stored rows have distinct ids, and a new id is none of them.
\<close>

theorem success_effects:
  "(canWrite perms \<and> respond (save_mutationFn now (editingPanchayath st) (formData st)) = None
      \<longrightarrow> queryCache (snd (handleSubmit perms now respond st))
            = invalidateQueries admin_queryKey (queryCache st)
          \<and> isDialogOpen (snd (handleSubmit perms now respond st)) = False
          \<and> editingPanchayath (snd (handleSubmit perms now respond st)) = None
          \<and> formData (snd (handleSubmit perms now respond st)) = \<lparr>f_name = [], f_district = []\<rparr>)
   \<and> (canDelete perms \<and> confirm ''Are you sure you want to delete this panchayath?''
        \<and> respond (delete_mutationFn i) = None
      \<longrightarrow> queryCache (snd (handleDelete perms confirm respond i st))
            = invalidateQueries admin_queryKey (queryCache st))
   \<and> (map_of cache admin_queryKey = Some entry
      \<longrightarrow> map_of (invalidateQueries admin_queryKey cache) admin_queryKey
            = Some (entry\<lparr>isInvalidated := True\<rparr>))
   \<and> panchayaths (refetch None (Some rows) after) = Some rows
   \<and> (canWrite perms \<and> respond (save_mutationFn now (editingPanchayath st) (formData st)) = None
        \<and> editingPanchayath st = Some p
        \<and> distinct (map p_id stored) \<and> old \<in> set stored \<and> p_id old = p_id p
      \<longrightarrow> (\<exists>shown.
            panchayaths (save_then_refetch perms now respond fresh_id stamp stored st)
              = Some shown
            \<and> filter (\<lambda>r. p_id r = p_id p) shown
                = [old\<lparr>p_name := f_name (formData st), district := f_district (formData st),
                       updated_at := now\<rparr>]
            \<and> count_list shown
                  (old\<lparr>p_name := f_name (formData st), district := f_district (formData st),
                       updated_at := now\<rparr>) = 1))
   \<and> (canWrite perms \<and> respond (save_mutationFn now (editingPanchayath st) (formData st)) = None
        \<and> editingPanchayath st = None
        \<and> distinct (map p_id stored) \<and> fresh_id \<notin> set (map p_id stored)
      \<longrightarrow> (\<exists>shown.
            panchayaths (save_then_refetch perms now respond fresh_id stamp stored st)
              = Some shown
            \<and> filter (\<lambda>r. p_id r = fresh_id) shown
                = [\<lparr>p_id = fresh_id, p_name = f_name (formData st),
                     district = f_district (formData st),
                     created_at = stamp, updated_at = stamp\<rparr>]
            \<and> count_list shown
                  \<lparr>p_id = fresh_id, p_name = f_name (formData st),
                    district = f_district (formData st),
                    created_at = stamp, updated_at = stamp\<rparr> = 1))"
proof -
  have save: "canWrite perms \<and> respond (save_mutationFn now (editingPanchayath st) (formData st)) = None
      \<longrightarrow> queryCache (snd (handleSubmit perms now respond st))
            = invalidateQueries admin_queryKey (queryCache st)
          \<and> isDialogOpen (snd (handleSubmit perms now respond st)) = False
          \<and> editingPanchayath (snd (handleSubmit perms now respond st)) = None
          \<and> formData (snd (handleSubmit perms now respond st)) = \<lparr>f_name = [], f_district = []\<rparr>"
    by (simp add: handleSubmit_def save_mutate_def Let_def save_onSuccess_def
        invalidate_list_def empty_form_def)
  have del: "canDelete perms \<and> confirm ''Are you sure you want to delete this panchayath?''
        \<and> respond (delete_mutationFn i) = None
      \<longrightarrow> queryCache (snd (handleDelete perms confirm respond i st))
            = invalidateQueries admin_queryKey (queryCache st)"
    by (simp add: handleDelete_def delete_mutate_def Let_def delete_onSuccess_def
        invalidate_list_def)
  have inv: "map_of cache admin_queryKey = Some entry
      \<longrightarrow> map_of (invalidateQueries admin_queryKey cache) admin_queryKey
            = Some (entry\<lparr>isInvalidated := True\<rparr>)"
    by (simp add: map_of_invalidateQueries key_matches_def)
  have list: "panchayaths (refetch None (Some rows) after) = Some rows"
    by (rule panchayaths_refetch)
  show ?thesis
    using save del inv list
      update_then_refetch [of perms respond now st p stored old fresh_id stamp]
      insert_then_refetch [of perms respond now st stored fresh_id stamp]
    by blast
qed

theorem success_effects_witness:
  "canWrite all_permissions
   \<and> accept (save_mutationFn ''2024-06-01T00:00:00.000Z''
        (editingPanchayath (onChange_name ''C'' (handleEdit row1 initial_client)))
        (formData (onChange_name ''C'' (handleEdit row1 initial_client)))) = None
   \<and> editingPanchayath (onChange_name ''C'' (handleEdit row1 initial_client)) = Some row1
   \<and> distinct (map p_id two_rows)
   \<and> row1 \<in> set two_rows
   \<and> panchayaths (save_then_refetch all_permissions ''2024-06-01T00:00:00.000Z'' accept
         ''p3'' ''2024-06-01T00:00:01.000Z'' two_rows
         (onChange_name ''C'' (handleEdit row1 initial_client)))
       = Some [mk ''p2'' ''B'' ''X'',
               row1\<lparr>p_name := ''C'', updated_at := ''2024-06-01T00:00:00.000Z''\<rparr>]
   \<and> editingPanchayath (onChange_district ''W'' (onChange_name ''D'' (resetForm initial_client)))
       = None
   \<and> ''p3'' \<notin> set (map p_id two_rows)
   \<and> panchayaths (save_then_refetch all_permissions ''2024-06-01T00:00:00.000Z'' accept
         ''p3'' ''2024-06-01T00:00:01.000Z'' two_rows
         (onChange_district ''W'' (onChange_name ''D'' (resetForm initial_client))))
       = Some [\<lparr>p_id = ''p3'', p_name = ''D'', district = ''W'',
                 created_at = ''2024-06-01T00:00:01.000Z'',
                 updated_at = ''2024-06-01T00:00:01.000Z''\<rparr>,
               row1, mk ''p2'' ''B'' ''X'']
   \<and> queryCache (snd (handleSubmit all_permissions ''2024-06-01T00:00:00.000Z'' accept
                        (handleEdit row1 initial_client)))
       = [(admin_queryKey, \<lparr>q_data = None, isInvalidated = True\<rparr>)]
   \<and> canDelete all_permissions
   \<and> yes ''Are you sure you want to delete this panchayath?''
   \<and> accept (delete_mutationFn ''p1'') = None
   \<and> queryCache (snd (handleDelete all_permissions yes accept ''p1'' initial_client))
       = [(admin_queryKey, \<lparr>q_data = None, isInvalidated = True\<rparr>)]
   \<and> map_of (queryCache initial_client) admin_queryKey
       = Some \<lparr>q_data = None, isInvalidated = False\<rparr>"
  using
    success_effects [where perms = all_permissions and respond = accept
      and now = "''2024-06-01T00:00:00.000Z''"
      and st = "onChange_name ''C'' (handleEdit row1 initial_client)"
      and confirm = yes and i = "''p1''" and cache = "queryCache initial_client"
      and entry = "\<lparr>q_data = None, isInvalidated = False\<rparr>" and rows = "[row1]"
      and after = initial_client and p = row1 and stored = two_rows and old = row1
      and fresh_id = "''p3''" and stamp = "''2024-06-01T00:00:01.000Z''"]
    success_effects [where perms = all_permissions and respond = accept
      and now = "''2024-06-01T00:00:00.000Z''"
      and st = "onChange_district ''W'' (onChange_name ''D'' (resetForm initial_client))"
      and confirm = yes and i = "''p1''" and cache = "queryCache initial_client"
      and entry = "\<lparr>q_data = None, isInvalidated = False\<rparr>" and rows = "[row1]"
      and after = initial_client and p = row1 and stored = two_rows and old = row1
      and fresh_id = "''p3''" and stamp = "''2024-06-01T00:00:01.000Z''"]
  by (simp add: all_permissions_def accept_def yes_def handleEdit_def initial_client_def
      invalidateQueries_def key_matches_def admin_queryKey_def handleSubmit_def
      save_mutate_def save_onSuccess_def invalidate_list_def handleDelete_def
      delete_mutate_def delete_onSuccess_def Let_def save_then_refetch_list
      onChange_name_def onChange_district_def resetForm_def empty_form_def two_rows_def
      row1_def mk_def save_mutationFn_def backend_apply_def targets_eq_id
      write_update_payload write_insert_payload fetched_order_def code_le_def)

text \<open>
  Claim C7. When the backend rejects a save or a delete, one request has been sent (the
  mutation is not retried) and the client state differs from the state before only by
  one more toast, with the operation's fixed text: the query cache with the fetched list,
  the form, the editing selection and the dialog are as before. In particular a delete
  that the backend rejects leaves the list the component holds unchanged.
\<close>

theorem failure_leaves_state:
  "(canWrite perms
      \<and> respond (save_mutationFn now (editingPanchayath st) (formData st)) = Some e
      \<longrightarrow> handleSubmit perms now respond st
            = ([save_mutationFn now (editingPanchayath st) (formData st)],
               st\<lparr>toasts := toasts st @
                    [\<lparr>title = ''Operation Failed'',
                      description = ''Failed to save panchayath. Please try again.'',
                      destructive = True\<rparr>]\<rparr>))
   \<and> (canDelete perms \<and> confirm ''Are you sure you want to delete this panchayath?''
        \<and> respond (delete_mutationFn i) = Some e
      \<longrightarrow> handleDelete perms confirm respond i st
            = ([delete_mutationFn i],
               st\<lparr>toasts := toasts st @
                    [\<lparr>title = ''Delete Failed'',
                      description =
                        ''Failed to delete panchayath. It may be in use by registrations.'',
                      destructive = True\<rparr>]\<rparr>)
          \<and> panchayaths (snd (handleDelete perms confirm respond i st)) = panchayaths st)
   \<and> queryCache (st\<lparr>toasts := ts\<rparr>) = queryCache st
   \<and> panchayaths (st\<lparr>toasts := ts\<rparr>) = panchayaths st
   \<and> formData (st\<lparr>toasts := ts\<rparr>) = formData st
   \<and> editingPanchayath (st\<lparr>toasts := ts\<rparr>) = editingPanchayath st
   \<and> isDialogOpen (st\<lparr>toasts := ts\<rparr>) = isDialogOpen st"
  by (simp add: handleSubmit_def save_mutate_def Let_def save_onError_def handleDelete_def
      delete_mutate_def delete_onError_def panchayaths_def)

theorem failure_leaves_state_witness:
  "canWrite all_permissions
   \<and> reject (save_mutationFn ''2024-06-01T00:00:00.000Z''
        (editingPanchayath (handleEdit row1 initial_client))
        (formData (handleEdit row1 initial_client)))
       = Some ''violates foreign key constraint''
   \<and> snd (handleSubmit all_permissions ''2024-06-01T00:00:00.000Z'' reject (handleEdit row1 initial_client))
       = (handleEdit row1 initial_client)
           \<lparr>toasts := [\<lparr>title = ''Operation Failed'',
                         description = ''Failed to save panchayath. Please try again.'',
                         destructive = True\<rparr>]\<rparr>
   \<and> canDelete all_permissions
   \<and> yes ''Are you sure you want to delete this panchayath?''
   \<and> reject (delete_mutationFn ''p1'') = Some ''violates foreign key constraint''
   \<and> fst (handleDelete all_permissions yes reject ''p1''
            (refetch None (Some [row1]) initial_client))
       = [Request ''panchayaths'' Delete [(''id'', ''p1'')]]
   \<and> panchayaths (snd (handleDelete all_permissions yes reject ''p1''
                         (refetch None (Some [row1]) initial_client)))
       = Some [row1]"
  using failure_leaves_state [where perms = all_permissions and respond = reject
      and now = "''2024-06-01T00:00:00.000Z''" and st = "handleEdit row1 initial_client"
      and e = "''violates foreign key constraint''" and confirm = yes and i = "''p1''"
      and ts = "[]"]
    failure_leaves_state [where perms = all_permissions and respond = reject
      and now = "''2024-06-01T00:00:00.000Z''" and st = "refetch None (Some [row1]) initial_client"
      and e = "''violates foreign key constraint''" and confirm = yes and i = "''p1''"
      and ts = "[]"]
  by (simp add: all_permissions_def reject_def yes_def handleEdit_def initial_client_def
      delete_mutationFn_def panchayaths_refetch handleSubmit_def save_mutate_def
      save_onError_def handleDelete_def delete_mutate_def delete_onError_def Let_def
      panchayaths_def refetch_def admin_queryFn_def admin_queryKey_def)

subsection \<open>Realtime notifications\<close>

text \<open>
  Claim C8. Mounting the component adds the subscription \<open>panchayaths-changes\<close> for
  \<open>postgres_changes\<close> on table \<open>panchayaths\<close> with the event wildcard \<open>*\<close>. Every
  notification about that table, whatever its event type and whatever row it carries,
  marks the list's cache entry invalidated and changes nothing else: the cached rows
  stay as they are until the re-fetch replaces them whole. The cleanup of the effect
  removes the subscription, after which a notification changes nothing.
\<close>

theorem realtime_subscription:
  "channels (effect_mount st) = channels st @ [panchayaths_changes]
   \<and> kind panchayaths_changes = ''postgres_changes''
   \<and> event panchayaths_changes = ''*''
   \<and> table_name panchayaths_changes = ''panchayaths''
   \<and> (change_schema c = ''public'' \<and> change_table c = ''panchayaths''
      \<longrightarrow> notify c (effect_mount st) = invalidate_list (effect_mount st)
          \<and> notify (c\<lparr>change_row := row'\<rparr>) (effect_mount st) = notify c (effect_mount st))
   \<and> on_change c st = invalidate_list st
   \<and> (map_of (queryCache st) admin_queryKey = Some entry
      \<longrightarrow> map_of (queryCache (invalidate_list st)) admin_queryKey
            = Some (entry\<lparr>isInvalidated := True\<rparr>))
   \<and> panchayaths (invalidate_list st) = panchayaths st
   \<and> panchayaths (refetch None rows st) = rows
   \<and> (panchayaths_changes \<notin> set (channels st)
      \<longrightarrow> channels (effect_cleanup (effect_mount st)) = channels st
          \<and> effect_cleanup (effect_mount st) = st)
   \<and> (channels st = [] \<longrightarrow> notify c (effect_cleanup (effect_mount st)) = st)"
proof -
  have listens: "change_schema c = ''public'' \<and> change_table c = ''panchayaths''
      \<longrightarrow> listens panchayaths_changes c \<and> listens panchayaths_changes (c\<lparr>change_row := row'\<rparr>)"
    by (simp add: listens_def panchayaths_changes_def)
  have notify: "listens panchayaths_changes d \<longrightarrow> notify d (effect_mount st) = invalidate_list (effect_mount st)" for d
    by (simp add: notify_eq effect_mount_def)
  have inv: "map_of (queryCache st) admin_queryKey = Some entry
      \<longrightarrow> map_of (queryCache (invalidate_list st)) admin_queryKey
            = Some (entry\<lparr>isInvalidated := True\<rparr>)"
    by (simp add: invalidate_list_def map_of_invalidateQueries key_matches_def)
  have cleanup: "panchayaths_changes \<notin> set (channels st)
      \<longrightarrow> channels (effect_cleanup (effect_mount st)) = channels st
          \<and> effect_cleanup (effect_mount st) = st"
    by (simp add: effect_cleanup_def effect_mount_def remove1_append)
  have after: "channels st = [] \<longrightarrow> notify c (effect_cleanup (effect_mount st)) = st"
    by (simp add: effect_cleanup_def effect_mount_def notify_eq)
  show ?thesis
    using listens notify inv cleanup after
    by (simp add: effect_mount_def panchayaths_changes_def on_change_def
        panchayaths_invalidate_list panchayaths_refetch)
qed

theorem realtime_subscription_witness:
  "change_schema remote_insert = ''public''
   \<and> change_table remote_insert = ''panchayaths''
   \<and> notify remote_insert (effect_mount (refetch None (Some [row1]) initial_client))
       = (refetch None (Some [row1]) initial_client)
           \<lparr> queryCache := [(admin_queryKey, \<lparr>q_data = Some [row1], isInvalidated = True\<rparr>)],
             channels := [panchayaths_changes] \<rparr>
   \<and> map_of (queryCache (refetch None (Some [row1]) initial_client)) admin_queryKey
       = Some \<lparr>q_data = Some [row1], isInvalidated = False\<rparr>
   \<and> panchayaths_changes \<notin> set (channels (refetch None (Some [row1]) initial_client))
   \<and> channels (refetch None (Some [row1]) initial_client) = []
   \<and> notify remote_insert
        (effect_cleanup (effect_mount (refetch None (Some [row1]) initial_client)))
       = refetch None (Some [row1]) initial_client"
  using realtime_subscription [where st = "refetch None (Some [row1]) initial_client"
      and c = remote_insert and entry = "\<lparr>q_data = Some [row1], isInvalidated = False\<rparr>"
      and row' = "[]" and rows = None]
  by (simp add: remote_insert_def refetch_def admin_queryFn_def initial_client_def
      invalidate_list_def invalidateQueries_def key_matches_def admin_queryKey_def
      effect_mount_def effect_cleanup_def notify_eq listens_def panchayaths_changes_def)

end
